theory Spec2Isabelle
  imports Complex_Main
begin

section \<open>Snowball Night Run: the simulation core of \<^verbatim>\<open>app/index.tsx\<close>\<close>

text \<open>
  The game keeps its simulation in mutable refs (\<^verbatim>\<open>stateRef\<close>, \<^verbatim>\<open>gameDataRef\<close>, the id
  counters, \<^verbatim>\<open>lastTapTimeRef\<close>) and in the React state \<^verbatim>\<open>gameState\<close>. The model passes
  all of them explicitly in one record and returns the updated record.

  Modelling decisions:
  \<^item> JavaScript numbers are modelled as exact reals; the frame timers, which only ever hold
    small whole numbers, as integers. Rounding of IEEE doubles is not modelled.
  \<^item> \<^verbatim>\<open>Dimensions.get('window')\<close> is an input of the program: the record \<open>Screen\<close>.
  \<^item> Every call of \<^verbatim>\<open>Math.random()\<close> is an input: the value it returned is passed in.
  \<^item> The snow and shatter particles, the haptics, the music and the rendering are left out:
    nothing in the simulation reads them.
\<close>

subsection \<open>Constants\<close>

record Screen =
  SCREEN_WIDTH :: real
  SCREEN_HEIGHT :: real

definition TARGET_FPS :: real where "TARGET_FPS = 60"

definition TIME_STEP :: real where "TIME_STEP = 1000 / TARGET_FPS"

definition GRAVITY :: real where "GRAVITY = 6 / 10"

definition JUMP_FORCE :: real where "JUMP_FORCE = - 14"

definition DOUBLE_JUMP_FORCE :: real where "DOUBLE_JUMP_FORCE = - 11"

definition TERMINAL_VELOCITY :: real where "TERMINAL_VELOCITY = 20"

definition INITIAL_SPEED :: real where "INITIAL_SPEED = 35 / 10"

definition SPEED_INCREMENT :: real where "SPEED_INCREMENT = 8 / 10000"

definition MAX_SPEED :: real where "MAX_SPEED = 9"

definition SPAWN_AHEAD_DISTANCE :: "Screen \<Rightarrow> real" where
  "SPAWN_AHEAD_DISTANCE d = SCREEN_WIDTH d * (15 / 10)"

definition SNOWBALL_SIZE :: real where "SNOWBALL_SIZE = 40"

definition TILE_HEIGHT :: real where "TILE_HEIGHT = 60"

definition TILE_Y :: "Screen \<Rightarrow> real" where "TILE_Y d = SCREEN_HEIGHT d - 200"

definition TILE_WIDTHS :: "real list" where "TILE_WIDTHS = [120, 180, 250, 400]"

definition GAP_SIZES :: "real list" where "GAP_SIZES = [100, 150, 200]"

definition COYOTE_TIME :: int where "COYOTE_TIME = 8"

definition JUMP_BUFFER_TIME :: int where "JUMP_BUFFER_TIME = 6"

definition LANDING_TOLERANCE :: real where "LANDING_TOLERANCE = 30"

subsection \<open>Data\<close>

datatype GameState = start | playing | gameOver

datatype TileType = short | medium | long

text \<open>\<^verbatim>\<open>TileData\<close>; the fields \<^verbatim>\<open>id\<close>, \<^verbatim>\<open>x\<close>, \<^verbatim>\<open>width\<close>, \<^verbatim>\<open>type\<close> carry a prefix.\<close>

record TileData =
  tile_id :: nat
  tile_x :: real
  tile_width :: real
  tile_type :: TileType

text \<open>\<^verbatim>\<open>CollectibleData\<close>; the optional \<^verbatim>\<open>rotation\<close> is never written and is left out.\<close>

record CollectibleData =
  col_id :: nat
  col_x :: real
  col_tileId :: nat
  collected :: bool

text \<open>The object held by \<^verbatim>\<open>stateRef\<close>.\<close>

record State =
  snowballY :: real
  velocity :: real
  cameraX :: real
  speed :: real
  isOnGround :: bool
  hasDoubleJump :: bool
  score :: real
  lastTime :: real
  accumulator :: real
  frameCounter :: nat
  coyoteTimer :: int
  jumpBufferTimer :: int
  lastGroundY :: real

text \<open>The object held by \<^verbatim>\<open>gameDataRef\<close> (without the particles).\<close>

record GameData =
  tiles :: "TileData list"
  collectibles :: "CollectibleData list"

text \<open>
  Everything the component owns: the refs, and of the React state the lifecycle
  \<^verbatim>\<open>gameState\<close> and the displayed \<^verbatim>\<open>score\<close> (here \<open>shownScore\<close>).
\<close>

record Game =
  stateRef :: State
  gameDataRef :: GameData
  tileIdCounter :: nat
  collectibleIdCounter :: nat
  lastTapTimeRef :: int
  gameState :: GameState
  shownScore :: int

subsection \<open>Random choices\<close>

text \<open>
  \<^verbatim>\<open>XS[Math.floor(Math.random() * XS.length)]\<close> with \<open>r\<close> the value of \<^verbatim>\<open>Math.random()\<close>,
  which JavaScript guarantees to lie in \<open>[0, 1)\<close>.
\<close>

definition randomValue :: "real \<Rightarrow> bool" where
  "randomValue r = (0 \<le> r \<and> r < 1)"

definition pick :: "real list \<Rightarrow> real \<Rightarrow> real" where
  "pick xs r = xs ! nat \<lfloor>r * real (length xs)\<rfloor>"

subsection \<open>\<^verbatim>\<open>initGame\<close> and \<^verbatim>\<open>handleStart\<close>\<close>

definition initialState :: "Screen \<Rightarrow> State" where
  "initialState d =
     \<lparr> snowballY = TILE_Y d - SNOWBALL_SIZE,
       velocity = 0,
       cameraX = 0,
       speed = INITIAL_SPEED,
       isOnGround = True,
       hasDoubleJump = False,
       score = 0,
       lastTime = 0,
       accumulator = 0,
       frameCounter = 0,
       coyoteTimer = 0,
       jumpBufferTimer = 0,
       lastGroundY = TILE_Y d - SNOWBALL_SIZE \<rparr>"

text \<open>
  The loop \<^verbatim>\<open>for (let i = 0; i < 5; i++)\<close> of \<^verbatim>\<open>initGame\<close>. \<open>rnd i\<close> holds the two values
  \<^verbatim>\<open>Math.random()\<close> returns in iteration \<open>i\<close> (for the width, then for the gap). The
  arguments after \<open>i\<close> are \<^verbatim>\<open>tileIdCounter.current\<close>, \<^verbatim>\<open>currentCenter\<close>, \<^verbatim>\<open>currentWidth\<close> and
  \<^verbatim>\<open>initialTiles\<close>.
\<close>

function initLoop ::
  "(nat \<Rightarrow> real \<times> real) \<Rightarrow> nat \<Rightarrow> nat \<Rightarrow> real \<Rightarrow> real \<Rightarrow> TileData list \<Rightarrow> TileData list \<times> nat"
where
  "initLoop rnd i idc currentCenter currentWidth initialTiles =
     (if i < 5 then
        (let width = pick TILE_WIDTHS (fst (rnd i));
             gap = pick GAP_SIZES (snd (rnd i));
             newCenter = currentCenter + (currentWidth / 2) + gap + (width / 2)
         in initLoop rnd (Suc i) (Suc idc) newCenter width
              (initialTiles @
                 [\<lparr> tile_id = idc, tile_x = newCenter, tile_width = width, tile_type = medium \<rparr>]))
      else (initialTiles, idc))"
  by pat_completeness auto

termination
  by (relation "measure (\<lambda>(rnd, i, idc, c, w, ts). 5 - i)") auto

declare initLoop.simps [simp del]

definition initGame :: "Screen \<Rightarrow> (nat \<Rightarrow> real \<times> real) \<Rightarrow> Game \<Rightarrow> Game" where
  "initGame d rnd g =
     (let (initialTiles, idc) =
            initLoop rnd 0 1 0 600
              [\<lparr> tile_id = 0, tile_x = 0, tile_width = 600, tile_type = long \<rparr>]
      in g \<lparr> tileIdCounter := idc,
             collectibleIdCounter := 0,
             stateRef := initialState d,
             gameDataRef := \<lparr> tiles = initialTiles, collectibles = [] \<rparr>,
             shownScore := 0 \<rparr>)"

definition handleStart :: "Screen \<Rightarrow> (nat \<Rightarrow> real \<times> real) \<Rightarrow> Game \<Rightarrow> Game" where
  "handleStart d rnd g = (initGame d rnd g) \<lparr> gameState := playing \<rparr>"

subsection \<open>\<^verbatim>\<open>handleTap\<close>\<close>

text \<open>
  \<open>now\<close> is the value of \<^verbatim>\<open>Date.now()\<close>; \<open>rnd\<close> is only used when the tap starts a run.
\<close>

definition handleTap :: "Screen \<Rightarrow> (nat \<Rightarrow> real \<times> real) \<Rightarrow> int \<Rightarrow> Game \<Rightarrow> Game" where
  "handleTap d rnd now g =
     (if gameState g \<noteq> playing then
        (if gameState g = start \<or> gameState g = gameOver then handleStart d rnd g else g)
      else
        (let state = stateRef g;
             timeSinceLastTap = now - lastTapTimeRef g
         in if isOnGround state \<or> coyoteTimer state > 0 then
              g \<lparr> stateRef := state \<lparr> velocity := JUMP_FORCE,
                                      isOnGround := False,
                                      coyoteTimer := 0,
                                      hasDoubleJump := True \<rparr>,
                  lastTapTimeRef := now \<rparr>
            else if \<not> isOnGround state \<and> hasDoubleJump state \<and> timeSinceLastTap < 300 then
              g \<lparr> stateRef := state \<lparr> velocity := DOUBLE_JUMP_FORCE,
                                      hasDoubleJump := False \<rparr>,
                  lastTapTimeRef := 0 \<rparr>
            else if \<not> isOnGround state then
              g \<lparr> stateRef := state \<lparr> jumpBufferTimer := JUMP_BUFFER_TIME \<rparr>,
                  lastTapTimeRef := now \<rparr>
            else g))"

subsection \<open>\<^verbatim>\<open>handleGameOver\<close>\<close>

text \<open>Of \<^verbatim>\<open>handleGameOver\<close> only \<^verbatim>\<open>setGameState('gameOver')\<close> touches the simulation.\<close>

definition handleGameOver :: "Game \<Rightarrow> Game" where
  "handleGameOver g = g \<lparr> gameState := gameOver \<rparr>"

subsection \<open>\<^verbatim>\<open>updatePhysics\<close>\<close>

text \<open>Lines 423 to 425: gravity, the clamp, the position.\<close>

definition integrate :: "State \<Rightarrow> State" where
  "integrate s =
     (let s1 = s \<lparr> velocity := velocity s + GRAVITY \<rparr>;
          s2 = s1 \<lparr> velocity := min (velocity s1) TERMINAL_VELOCITY \<rparr>
      in s2 \<lparr> snowballY := snowballY s2 + velocity s2 \<rparr>)"

text \<open>Lines 427 to 429: speed ramp, camera, passive score.\<close>

definition advance :: "State \<Rightarrow> State" where
  "advance s =
     (let s1 = s \<lparr> speed := min (speed s + SPEED_INCREMENT) MAX_SPEED \<rparr>;
          s2 = s1 \<lparr> cameraX := cameraX s1 + speed s1 \<rparr>
      in s2 \<lparr> score := score s2 + speed s2 / 100 \<rparr>)"

text \<open>Lines 431 and 432: the two timers count down to zero.\<close>

definition decayTimers :: "State \<Rightarrow> State" where
  "decayTimers s =
     (let s1 = (if jumpBufferTimer s > 0 then s \<lparr> jumpBufferTimer := jumpBufferTimer s - 1 \<rparr> else s)
      in (if coyoteTimer s1 > 0 then s1 \<lparr> coyoteTimer := coyoteTimer s1 - 1 \<rparr> else s1))"

text \<open>Line 447, with the snowball's box of lines 435 to 437.\<close>

definition horizontalOverlap :: "State \<Rightarrow> TileData \<Rightarrow> bool" where
  "horizontalOverlap s tile =
     (let snowballWorldX = cameraX s;
          snowballLeft = snowballWorldX - SNOWBALL_SIZE / 2;
          snowballRight = snowballWorldX + SNOWBALL_SIZE / 2;
          halfWidth = tile_width tile / 2;
          tileLeft = tile_x tile - halfWidth;
          tileRight = tile_x tile + halfWidth
      in snowballRight > tileLeft \<and> snowballLeft < tileRight)"

text \<open>
  Line 452. \<^verbatim>\<open>snowballBottom\<close> is computed once, before the loop (line 434), from the
  position the loop starts with; the loop changes the position only when it lands and
  leaves, so the test may read it from the current state.
\<close>

definition landingCondition :: "Screen \<Rightarrow> State \<Rightarrow> bool" where
  "landingCondition d s =
     (let snowballBottom = snowballY s + SNOWBALL_SIZE;
          distanceToSurface = snowballBottom - TILE_Y d
      in distanceToSurface \<ge> 0 \<and> distanceToSurface \<le> LANDING_TOLERANCE \<and> velocity s \<ge> 0)"

text \<open>Lines 453 to 458: the landing itself.\<close>

definition touchDown :: "Screen \<Rightarrow> State \<Rightarrow> State" where
  "touchDown d s =
     (let s1 = s \<lparr> snowballY := TILE_Y d - SNOWBALL_SIZE \<rparr>;
          s2 = s1 \<lparr> velocity := 0, isOnGround := True, hasDoubleJump := False,
                    coyoteTimer := COYOTE_TIME \<rparr>
      in s2 \<lparr> lastGroundY := snowballY s2 \<rparr>)"

text \<open>Lines 453 to 468: the body of the landing branch, with the buffered jump.\<close>

definition land :: "Screen \<Rightarrow> State \<Rightarrow> State" where
  "land d s =
     (let s3 = touchDown d s
      in if jumpBufferTimer s3 > 0 then
           s3 \<lparr> velocity := JUMP_FORCE, isOnGround := False, hasDoubleJump := True,
                jumpBufferTimer := 0 \<rparr>
         else s3)"

text \<open>
  Lines 442 to 474: the loop over the tiles. The result is the state with the flags
  \<^verbatim>\<open>onTile\<close> and \<^verbatim>\<open>shouldLand\<close>; a landing ends the loop (\<^verbatim>\<open>break\<close>).
\<close>

fun tileLoop :: "Screen \<Rightarrow> State \<Rightarrow> bool \<Rightarrow> TileData list \<Rightarrow> State \<times> bool \<times> bool" where
  "tileLoop d s onTile [] = (s, onTile, False)"
| "tileLoop d s onTile (tile # rest) =
     (if horizontalOverlap s tile then
        (if landingCondition d s then (land d s, True, True)
         else if \<bar>snowballY s - lastGroundY s\<bar> < 5 then tileLoop d s True rest
         else tileLoop d s onTile rest)
      else tileLoop d s onTile rest)"

text \<open>Lines 423 to 432: the state the collision loop starts with.\<close>

definition preCollision :: "Game \<Rightarrow> State" where
  "preCollision g = decayTimers (advance (integrate (stateRef g)))"

text \<open>The flag \<^verbatim>\<open>shouldLand\<close> when the loop is left: this step lands.\<close>

definition shouldLand :: "Screen \<Rightarrow> Game \<Rightarrow> bool" where
  "shouldLand d g = snd (snd (tileLoop d (preCollision g) False (tiles (gameDataRef g))))"

text \<open>Lines 423 to 479: the state when the death test of line 481 is reached.\<close>

definition physics :: "Screen \<Rightarrow> Game \<Rightarrow> State" where
  "physics d g =
     (let s0 = preCollision g;
          (s1, onTile, shouldLand) = tileLoop d s0 False (tiles (gameDataRef g))
      in if \<not> shouldLand \<and> isOnGround s1 \<and> \<not> onTile then
           s1 \<lparr> isOnGround := False, coyoteTimer := COYOTE_TIME \<rparr>
         else s1)"

text \<open>Line 487: the tiles that have not scrolled out.\<close>

definition activeTiles :: "Screen \<Rightarrow> State \<Rightarrow> TileData list \<Rightarrow> TileData list" where
  "activeTiles d s ts =
     filter (\<lambda>t. tile_x t + tile_width t / 2 > cameraX s - SCREEN_WIDTH d) ts"

text \<open>The three values \<^verbatim>\<open>Math.random()\<close> returns in lines 492, 493 and 504.\<close>

record Rand =
  rWidth :: real
  rGap :: real
  rBonus :: real

text \<open>
  Lines 489 to 512. An empty \<^verbatim>\<open>activeTiles\<close> makes \<^verbatim>\<open>lastTile\<close> undefined, and the branch
  is skipped.
\<close>

definition spawn :: "Screen \<Rightarrow> Rand \<Rightarrow> State \<Rightarrow> TileData list \<Rightarrow> Game \<Rightarrow> TileData list \<times> Game" where
  "spawn d r s active g =
     (if active = [] then (active, g)
      else
        (let lastTile = last active;
             lastTileRight = tile_x lastTile + tile_width lastTile / 2
         in if lastTileRight < cameraX s + SPAWN_AHEAD_DISTANCE d then
              (let width = pick TILE_WIDTHS (rWidth r);
                   gap = pick GAP_SIZES (rGap r);
                   newCenter = tile_x lastTile + (tile_width lastTile / 2) + gap + (width / 2);
                   newTile = \<lparr> tile_id = tileIdCounter g, tile_x = newCenter,
                               tile_width = width, tile_type = medium \<rparr>;
                   g1 = g \<lparr> tileIdCounter := Suc (tileIdCounter g) \<rparr>
               in if rBonus r < 3 / 10 then
                    (active @ [newTile],
                     g1 \<lparr> gameDataRef := (gameDataRef g1)
                            \<lparr> collectibles := collectibles (gameDataRef g1) @
                                 [\<lparr> col_id = collectibleIdCounter g1, col_x = newCenter,
                                    col_tileId = tile_id newTile, collected = False \<rparr>] \<rparr>,
                          collectibleIdCounter := Suc (collectibleIdCounter g1) \<rparr>)
                  else (active @ [newTile], g1))
            else (active, g)))"

text \<open>Line 519: the pickup test.\<close>

definition pickup :: "Screen \<Rightarrow> State \<Rightarrow> CollectibleData \<Rightarrow> bool" where
  "pickup d s col =
     (let dx = \<bar>col_x col - cameraX s\<bar>
      in dx < 40 \<and> \<bar>snowballY s - (TILE_Y d - 70)\<bar> < 50)"

text \<open>
  Lines 516 to 524: the loop over the collectibles; it returns the list with the flags
  set and the state with the bonuses added.
\<close>

fun collectLoop :: "Screen \<Rightarrow> State \<Rightarrow> CollectibleData list \<Rightarrow> CollectibleData list \<times> State" where
  "collectLoop d s [] = ([], s)"
| "collectLoop d s (col # rest) =
     (if collected col then
        (let (rest', s') = collectLoop d s rest in (col # rest', s'))
      else if pickup d s col then
        (let (rest', s') = collectLoop d (s \<lparr> score := score s + 10 \<rparr>) rest
         in (col \<lparr> collected := True \<rparr> # rest', s'))
      else
        (let (rest', s') = collectLoop d s rest in (col # rest', s')))"

text \<open>
  One fixed step. At the death test the step calls \<^verbatim>\<open>handleGameOver\<close> and returns; the
  state keeps what lines 423 to 479 wrote.
\<close>

definition updatePhysics :: "Screen \<Rightarrow> Rand \<Rightarrow> Game \<Rightarrow> Game" where
  "updatePhysics d r g =
     (let s = physics d g;
          g1 = g \<lparr> stateRef := s \<rparr>
      in if snowballY s > SCREEN_HEIGHT d + 100 then handleGameOver g1
         else
           (let (active, g2) = spawn d r s (activeTiles d s (tiles (gameDataRef g1))) g1;
                kept = filter (\<lambda>c. col_x c > cameraX s - SCREEN_WIDTH d)
                         (collectibles (gameDataRef g2));
                (cols, s') = collectLoop d s kept
            in g2 \<lparr> stateRef := s',
                    gameDataRef := \<lparr> tiles = active, collectibles = cols \<rparr> \<rparr>))"

text \<open>
  Line 515: the collectibles the pickup loop of a step runs over, after the spawn of
  line 505 and the purge.
\<close>

definition activeCollectibles :: "Screen \<Rightarrow> Rand \<Rightarrow> Game \<Rightarrow> CollectibleData list" where
  "activeCollectibles d r g =
     (let s = physics d g;
          g1 = g \<lparr> stateRef := s \<rparr>;
          (active, g2) = spawn d r s (activeTiles d s (tiles (gameDataRef g1))) g1
      in filter (\<lambda>c. col_x c > cameraX s - SCREEN_WIDTH d) (collectibles (gameDataRef g2)))"

subsection \<open>\<^verbatim>\<open>gameLoop\<close>\<close>

text \<open>
  The loop \<^verbatim>\<open>while (state.accumulator >= TIME_STEP)\<close> of \<^verbatim>\<open>gameLoop\<close>. \<open>rs k\<close> holds the random
  values of iteration \<open>k\<close>. The loop does not look at \<^verbatim>\<open>gameState\<close>.
\<close>

function catchUp :: "Screen \<Rightarrow> (nat \<Rightarrow> Rand) \<Rightarrow> nat \<Rightarrow> Game \<Rightarrow> Game" where
  "catchUp d rs k g =
     (if accumulator (stateRef g) \<ge> TIME_STEP then
        (let g1 = updatePhysics d (rs k) g
         in catchUp d rs (Suc k)
              (g1 \<lparr> stateRef := (stateRef g1)
                      \<lparr> accumulator := accumulator (stateRef g1) - TIME_STEP \<rparr> \<rparr>))
      else g)"
  by pat_completeness auto

termination
proof (relation "measure (\<lambda>(d, rs, k, g). nat \<lfloor>accumulator (stateRef g) / TIME_STEP\<rfloor>)")
  show "wf (measure (\<lambda>(d, rs, k, g). nat \<lfloor>accumulator (stateRef g) / TIME_STEP\<rfloor>))"
    by simp
next
  fix d :: Screen and rs :: "nat \<Rightarrow> Rand" and k :: nat and g g1 :: Game
  assume a: "TIME_STEP \<le> accumulator (stateRef g)" and g1: "g1 = updatePhysics d (rs k) g"
  have collect: "accumulator (snd (collectLoop d s cs)) = accumulator s" for s cs
    by (induction cs arbitrary: s) (simp_all add: case_prod_beta)
  have tile: "accumulator (fst (tileLoop d s b ts)) = accumulator s" for s b ts
    by (induction ts arbitrary: b) (simp_all add: land_def touchDown_def Let_def)
  have "accumulator (preCollision g) = accumulator (stateRef g)"
    by (simp add: preCollision_def decayTimers_def advance_def integrate_def Let_def)
  then have "accumulator (physics d g) = accumulator (stateRef g)"
    by (simp add: physics_def Let_def case_prod_beta tile)
  then have same: "accumulator (stateRef g1) = accumulator (stateRef g)"
    by (simp add: g1 updatePhysics_def Let_def case_prod_beta handleGameOver_def collect)
  have pos: "0 < TIME_STEP"
    by (simp add: TIME_STEP_def TARGET_FPS_def)
  have "(accumulator (stateRef g) - TIME_STEP) / TIME_STEP = accumulator (stateRef g) / TIME_STEP - 1"
    using pos by (simp add: diff_divide_distrib)
  moreover have "1 \<le> accumulator (stateRef g) / TIME_STEP"
    using a pos by simp
  then have "1 \<le> \<lfloor>accumulator (stateRef g) / TIME_STEP\<rfloor>"
    by linarith
  ultimately have
    "nat \<lfloor>(accumulator (stateRef g) - TIME_STEP) / TIME_STEP\<rfloor>
       < nat \<lfloor>accumulator (stateRef g) / TIME_STEP\<rfloor>"
    by simp
  then show
    "((d, rs, Suc k,
       g1 \<lparr> stateRef := (stateRef g1) \<lparr> accumulator := accumulator (stateRef g1) - TIME_STEP \<rparr> \<rparr>),
      (d, rs, k, g))
     \<in> measure (\<lambda>(d, rs, k, g). nat \<lfloor>accumulator (stateRef g) / TIME_STEP\<rfloor>)"
    by (simp add: same)
qed

declare catchUp.simps [simp del]

text \<open>
  One animation frame at time \<open>time\<close>. The frame is only ever scheduled by the effect of
  the \<^verbatim>\<open>playing\<close> state, whose closure holds \<^verbatim>\<open>gameState = 'playing'\<close>; scheduling the next
  frame is not modelled.
\<close>

definition gameLoop :: "Screen \<Rightarrow> (nat \<Rightarrow> Rand) \<Rightarrow> real \<Rightarrow> Game \<Rightarrow> Game" where
  "gameLoop d rs time g =
     (let state = stateRef g;
          state1 = (if lastTime state = 0 then state \<lparr> lastTime := time \<rparr> else state);
          deltaTime = time - lastTime state1;
          state2 = state1 \<lparr> lastTime := time \<rparr>;
          state3 = state2 \<lparr> accumulator := accumulator state2 + deltaTime \<rparr>;
          g1 = catchUp d rs 0 (g \<lparr> stateRef := state3 \<rparr>);
          state4 = (stateRef g1) \<lparr> frameCounter := frameCounter (stateRef g1) + 1 \<rparr>;
          g2 = g1 \<lparr> stateRef := state4 \<rparr>
      in if frameCounter state4 mod 2 = 0 then g2 \<lparr> shownScore := \<lfloor>score state4\<rfloor> \<rparr> else g2)"

subsection \<open>Runs\<close>

text \<open>
  What happens to the component from outside: a tap (with the value of \<^verbatim>\<open>Date.now()\<close> and
  the random values \<^verbatim>\<open>initGame\<close> would draw), or an animation frame (with the random values
  of its steps and its time stamp). Frames are only delivered while \<^verbatim>\<open>gameState\<close> is
  \<^verbatim>\<open>playing\<close>: the effect that schedules them is torn down otherwise.
\<close>

datatype Event = Tap "nat \<Rightarrow> real \<times> real" int | Frame "nat \<Rightarrow> Rand" real

fun play :: "Screen \<Rightarrow> Event \<Rightarrow> Game \<Rightarrow> Game" where
  "play d (Tap rnd now) g = handleTap d rnd now g"
| "play d (Frame rs time) g = (if gameState g = playing then gameLoop d rs time g else g)"

fun run :: "Screen \<Rightarrow> Event list \<Rightarrow> Game \<Rightarrow> Game" where
  "run d [] g = g"
| "run d (e # es) g = run d es (play d e g)"

text \<open>What \<^verbatim>\<open>Math.random()\<close> can return in a step, in \<^verbatim>\<open>initGame\<close>, in an event.\<close>

definition validRand :: "Rand \<Rightarrow> bool" where
  "validRand r = (randomValue (rWidth r) \<and> randomValue (rGap r) \<and> randomValue (rBonus r))"

definition validInit :: "(nat \<Rightarrow> real \<times> real) \<Rightarrow> bool" where
  "validInit rnd = (\<forall>i<5. randomValue (fst (rnd i)) \<and> randomValue (snd (rnd i)))"

fun validEvent :: "Event \<Rightarrow> bool" where
  "validEvent (Tap rnd now) = validInit rnd"
| "validEvent (Frame rs time) = (\<forall>k. validRand (rs k))"

subsection \<open>The actor's part of the state\<close>

text \<open>
  The fields of \<^verbatim>\<open>stateRef\<close> that describe the snowball: position, velocity, the two
  flags, the two timers and the last grounded position.
\<close>

definition actorState :: "State \<Rightarrow> real \<times> real \<times> bool \<times> bool \<times> int \<times> int \<times> real" where
  "actorState s =
     (snowballY s, velocity s, isOnGround s, hasDoubleJump s, coyoteTimer s,
      jumpBufferTimer s, lastGroundY s)"

section \<open>Inputs and notions of the claims\<close>

subsection \<open>Concrete inputs\<close>

text \<open>A 400 by 800 window: the surface of the tiles is at 600, a resting snowball at 560.\<close>

definition screen0 :: Screen where
  "screen0 = \<lparr> SCREEN_WIDTH = 400, SCREEN_HEIGHT = 800 \<rparr>"

definition startTile :: TileData where
  "startTile = \<lparr> tile_id = 0, tile_x = 0, tile_width = 600, tile_type = long \<rparr>"

text \<open>A running game on the start platform alone, as \<^verbatim>\<open>initGame\<close> leaves the snowball.\<close>

definition game0 :: Game where
  "game0 =
     \<lparr> stateRef = initialState screen0,
       gameDataRef = \<lparr> tiles = [startTile], collectibles = [] \<rparr>,
       tileIdCounter = 1,
       collectibleIdCounter = 0,
       lastTapTimeRef = 0,
       gameState = playing,
       shownScore = 0 \<rparr>"

text \<open>
  The snowball comes down over the start platform, five units above its resting position,
  after a jump; \<open>k\<close> is the jump buffer.
\<close>

definition falling :: "int \<Rightarrow> Game" where
  "falling k =
     game0 \<lparr> stateRef := (initialState screen0)
               \<lparr> snowballY := 555, velocity := 5, isOnGround := False, hasDoubleJump := True,
                 jumpBufferTimer := k \<rparr> \<rparr>"

text \<open>Random values: for a step, for the steps of a frame, for \<^verbatim>\<open>initGame\<close>.\<close>

definition rand0 :: Rand where
  "rand0 = \<lparr> rWidth = 1 / 2, rGap = 1 / 2, rBonus = 1 / 10 \<rparr>"

definition rands0 :: "nat \<Rightarrow> Rand" where
  "rands0 = (\<lambda>k. rand0)"

definition rnd0 :: "nat \<Rightarrow> real \<times> real" where
  "rnd0 = (\<lambda>i. (1 / 2, 1 / 2))"

subsection \<open>For C2: the buffered jump on landing\<close>

text \<open>
  The snowball of \<open>falling 3\<close> at the moment lines 453 to 458 have run: it has landed, and
  the buffered jump has not been looked at yet.
\<close>

definition touchedDown :: Game where
  "touchedDown = (falling 3) \<lparr> stateRef := touchDown screen0 (preCollision (falling 3)) \<rparr>"

subsection \<open>For C3: the double jump and the third tap\<close>

text \<open>
  The snowball one step after a tap on the ground at time 1000, and after a second tap
  at time 1100.
\<close>

definition airborne :: Game where
  "airborne = updatePhysics screen0 rand0 (handleTap screen0 rnd0 1000 game0)"

definition doubleJumped :: Game where
  "doubleJumped = handleTap screen0 rnd0 1100 airborne"

text \<open>
  The snowball is in the air of a running game, past its coyote time, with the double
  jump available: the state a jump made by a tap leaves.
\<close>

definition doubleJumpReady :: "Game \<Rightarrow> bool" where
  "doubleJumpReady g =
     (gameState g = playing \<and> \<not> isOnGround (stateRef g) \<and> coyoteTimer (stateRef g) \<le> 0
      \<and> hasDoubleJump (stateRef g))"

text \<open>
  The snowball is in the air of a running game, past its coyote time, with the double
  jump used up. Nothing but a landing ends this.
\<close>

definition doubleJumpSpent :: "Game \<Rightarrow> bool" where
  "doubleJumpSpent g =
     (gameState g = playing \<and> \<not> isOnGround (stateRef g) \<and> coyoteTimer (stateRef g) \<le> 0
      \<and> \<not> hasDoubleJump (stateRef g))"

subsection \<open>For C9: picking up a collectible\<close>

text \<open>A gift ten units ahead of the resting snowball of \<open>game0\<close>.\<close>

definition gift :: CollectibleData where
  "gift = \<lparr> col_id = 0, col_x = 10, col_tileId = 0, collected = False \<rparr>"

definition giftGame :: Game where
  "giftGame = game0 \<lparr> gameDataRef := \<lparr> tiles = [startTile], collectibles = [gift] \<rparr>,
                      collectibleIdCounter := 1 \<rparr>"

subsection \<open>For C10: no tiles, no spawning\<close>

text \<open>
  The events stay within one run: no tap arrives outside play (such a tap starts a new
  run).
\<close>

fun sameRun :: "Screen \<Rightarrow> Event list \<Rightarrow> Game \<Rightarrow> bool" where
  "sameRun d [] g = True"
| "sameRun d (Tap rnd now # es) g = (gameState g = playing \<and> sameRun d es (handleTap d rnd now g))"
| "sameRun d (Frame rs time # es) g = sameRun d es (play d (Frame rs time) g)"

text \<open>
  Nothing has been created between \<open>g\<close> and \<open>h\<close>: \<open>h\<close> has no tiles, both id counters are
  where they were (every new tile and collectible takes a fresh id), and the collectibles
  of \<open>h\<close> are among those of \<open>g\<close>.
\<close>

definition nothingCreated :: "Game \<Rightarrow> Game \<Rightarrow> bool" where
  "nothingCreated g h =
     (tiles (gameDataRef h) = []
      \<and> tileIdCounter h = tileIdCounter g
      \<and> collectibleIdCounter h = collectibleIdCounter g
      \<and> set (map col_id (collectibles (gameDataRef h))) \<subseteq> set (map col_id (collectibles (gameDataRef g)))
      \<and> length (collectibles (gameDataRef h)) \<le> length (collectibles (gameDataRef g)))"

text \<open>The snowball far beyond the only tile.\<close>

definition stranded :: Game where
  "stranded = game0 \<lparr> stateRef := (initialState screen0) \<lparr> cameraX := 1000 \<rparr> \<rparr>"

subsection \<open>For C4: the spacing of the tiles\<close>

text \<open>The edges of a tile, as lines 444 and 445 compute them.\<close>

definition tileLeft :: "TileData \<Rightarrow> real" where
  "tileLeft tile = tile_x tile - tile_width tile / 2"

definition tileRight :: "TileData \<Rightarrow> real" where
  "tileRight tile = tile_x tile + tile_width tile / 2"

text \<open>
  Tile \<open>b\<close> is placed after tile \<open>a\<close> by the rule of lines 241 and 494: its width is one of
  \<^verbatim>\<open>TILE_WIDTHS\<close>, and its centre is the right edge of \<open>a\<close> plus one of \<^verbatim>\<open>GAP_SIZES\<close> plus half
  its width.
\<close>

definition placedAfter :: "TileData \<Rightarrow> TileData \<Rightarrow> bool" where
  "placedAfter a b =
     (\<exists>gap\<in>set GAP_SIZES. \<exists>width\<in>set TILE_WIDTHS.
        tile_width b = width \<and> tile_x b = tileRight a + gap + width / 2)"

text \<open>Every tile of the list but the first is placed after the one before it.\<close>

definition wellSpaced :: "TileData list \<Rightarrow> bool" where
  "wellSpaced ts = successively placedAfter ts"

subsection \<open>For C7: resting on a tile\<close>

text \<open>A sequence of physics steps, with the random values of each.\<close>

fun steps :: "Screen \<Rightarrow> Rand list \<Rightarrow> Game \<Rightarrow> Game" where
  "steps d [] g = g"
| "steps d (r # rs) g = steps d rs (updatePhysics d r g)"

text \<open>
  At each of the steps the snowball, after the camera has advanced, overlaps one of the
  tiles horizontally.
\<close>

fun supported :: "Screen \<Rightarrow> Rand list \<Rightarrow> Game \<Rightarrow> bool" where
  "supported d [] g = True"
| "supported d (r # rs) g =
     ((\<exists>t\<in>set (tiles (gameDataRef g)). horizontalOverlap (preCollision g) t)
      \<and> supported d rs (updatePhysics d r g))"

text \<open>
  The snowball rests on the surface: grounded, at the resting position, with no velocity
  and no buffered jump waiting.
\<close>

definition resting :: "Screen \<Rightarrow> State \<Rightarrow> bool" where
  "resting d s =
     (isOnGround s \<and> velocity s = 0 \<and> snowballY s = TILE_Y d - SNOWBALL_SIZE
      \<and> jumpBufferTimer s \<le> 0)"

text \<open>The snowball rests on the last unit of the start platform.\<close>

definition edgeGame :: Game where
  "edgeGame = game0 \<lparr> stateRef := (initialState screen0) \<lparr> cameraX := 319 \<rparr> \<rparr>"

subsection \<open>For C5: the end of the run\<close>

text \<open>
  The snowball falls at terminal velocity over a gap, five units above the death line
  (900); the last frame came at time 1000.
\<close>

definition dyingGame :: Game where
  "dyingGame =
     game0 \<lparr> stateRef := (initialState screen0)
               \<lparr> snowballY := 895, velocity := 20, cameraX := 1000, isOnGround := False,
                 lastTime := 1000 \<rparr> \<rparr>"

section \<open>Auxiliary facts\<close>

text \<open>The two loops of a step in closed form.\<close>

lemma pickup_score [simp]: "pickup d (s \<lparr> score := v \<rparr>) col = pickup d s col"
  by (simp add: pickup_def)

lemma collectLoop_eq:
  "collectLoop d s cs =
     (map (\<lambda>c. if \<not> collected c \<and> pickup d s c then c \<lparr> collected := True \<rparr> else c) cs,
      s \<lparr> score := score s + 10 * real (length (filter (\<lambda>c. \<not> collected c \<and> pickup d s c) cs)) \<rparr>)"
  by (induction cs arbitrary: s) (simp_all add: algebra_simps)

lemma tileLoop_eq:
  "tileLoop d s b ts =
     (if landingCondition d s \<and> (\<exists>t\<in>set ts. horizontalOverlap s t)
      then (land d s, True, True)
      else (s, b \<or> ((\<exists>t\<in>set ts. horizontalOverlap s t) \<and> \<bar>snowballY s - lastGroundY s\<bar> < 5), False))"
  by (induction ts arbitrary: b) auto

lemmas constant_defs = TIME_STEP_def TARGET_FPS_def GRAVITY_def JUMP_FORCE_def DOUBLE_JUMP_FORCE_def
  TERMINAL_VELOCITY_def INITIAL_SPEED_def SPEED_INCREMENT_def MAX_SPEED_def SPAWN_AHEAD_DISTANCE_def
  SNOWBALL_SIZE_def TILE_Y_def TILE_WIDTHS_def GAP_SIZES_def COYOTE_TIME_def JUMP_BUFFER_TIME_def
  LANDING_TOLERANCE_def

lemmas step_defs = preCollision_def integrate_def advance_def decayTimers_def horizontalOverlap_def
  landingCondition_def touchDown_def land_def physics_def activeTiles_def spawn_def pickup_def
  updatePhysics_def handleGameOver_def shouldLand_def actorState_def pick_def

lemmas example_defs = screen0_def startTile_def game0_def falling_def rand0_def initialState_def

text \<open>The collision phase without the loop: a landing needs one overlapping tile.\<close>

lemma physics_eq:
  "physics d g =
     (let s0 = preCollision g;
          over = (\<exists>t\<in>set (tiles (gameDataRef g)). horizontalOverlap s0 t)
      in if landingCondition d s0 \<and> over then land d s0
         else if isOnGround s0 \<and> \<not> (over \<and> \<bar>snowballY s0 - lastGroundY s0\<bar> < 5)
           then s0 \<lparr> isOnGround := False, coyoteTimer := COYOTE_TIME \<rparr>
         else s0)"
proof (cases "\<exists>t\<in>set (tiles (gameDataRef g)). horizontalOverlap (preCollision g) t")
  case True
  then show ?thesis
    by (cases "landingCondition d (preCollision g)") (simp_all add: physics_def tileLoop_eq Let_def)
next
  case False
  then show ?thesis
    by (simp add: physics_def tileLoop_eq Let_def)
qed

text \<open>After line 479 a step writes nothing of the actor any more, only the score.\<close>

lemma updatePhysics_actorState:
  "actorState (stateRef (updatePhysics d r g)) = actorState (physics d g)"
  by (simp add: updatePhysics_def Let_def handleGameOver_def collectLoop_eq actorState_def
      split: prod.splits)

text \<open>
  Invariants: what holds at the start of a run and is kept by every step, by every tap
  during play and by the frame's bookkeeping holds after every sequence of events.
\<close>

lemma catchUp_invariant:
  assumes "I g"
    and "\<And>k. VR (rs k)"
    and "\<And>g r. VR r \<Longrightarrow> I g \<Longrightarrow> I (updatePhysics d r g)"
    and "\<And>g a. I g \<Longrightarrow> I (g \<lparr> stateRef := (stateRef g) \<lparr> accumulator := a \<rparr> \<rparr>)"
  shows "I (catchUp d rs k g)"
  using assms
proof (induction d rs k g rule: catchUp.induct)
  case (1 d rs k g)
  show ?case
  proof (cases "accumulator (stateRef g) \<ge> TIME_STEP")
    case True
    let ?g1 = "updatePhysics d (rs k) g"
    let ?g2 = "?g1 \<lparr> stateRef := (stateRef ?g1)
                      \<lparr> accumulator := accumulator (stateRef ?g1) - TIME_STEP \<rparr> \<rparr>"
    have "I ?g1"
      using "1.prems"(2) "1.prems"(1) by (rule "1.prems"(3))
    then have "I ?g2"
      by (rule "1.prems"(4))
    then have "I (catchUp d rs (Suc k) ?g2)"
      using "1.IH" [OF True refl] "1.prems"(2,3,4) by blast
    then show ?thesis
      using True by (subst catchUp.simps) (simp add: Let_def)
  next
    case False
    then show ?thesis
      using "1.prems"(1) by (subst catchUp.simps) simp
  qed
qed

lemma gameLoop_eq:
  "gameLoop d rs time g =
     (let a = (if lastTime (stateRef g) = 0 then time else lastTime (stateRef g));
          g1 = catchUp d rs 0
                 (g \<lparr> stateRef := (stateRef g)
                      \<lparr> lastTime := time, accumulator := accumulator (stateRef g) + (time - a) \<rparr> \<rparr>);
          g2 = g1 \<lparr> stateRef := (stateRef g1) \<lparr> frameCounter := frameCounter (stateRef g1) + 1 \<rparr> \<rparr>
      in if frameCounter (stateRef g2) mod 2 = 0
         then g2 \<lparr> shownScore := \<lfloor>score (stateRef g2)\<rfloor> \<rparr> else g2)"
  by (simp add: gameLoop_def Let_def)

lemma gameLoop_invariant:
  assumes g: "I g"
    and rs: "\<And>k. VR (rs k)"
    and step: "\<And>g r. VR r \<Longrightarrow> I g \<Longrightarrow> I (updatePhysics d r g)"
    and book: "\<And>g a b c e. I g \<Longrightarrow>
       I (g \<lparr> stateRef := (stateRef g) \<lparr> lastTime := a, accumulator := b, frameCounter := c \<rparr>,
              shownScore := e \<rparr>)"
  shows "I (gameLoop d rs time g)"
proof -
  have upd: "I (h \<lparr> stateRef := (stateRef h) \<lparr> accumulator := a \<rparr> \<rparr>)" if "I h" for h a
    using book [OF that, where a = "lastTime (stateRef h)" and b = a
        and c = "frameCounter (stateRef h)" and e = "shownScore h"]
    by simp
  define a where "a = (if lastTime (stateRef g) = 0 then time else lastTime (stateRef g))"
  define g0 where "g0 = g \<lparr> stateRef := (stateRef g)
      \<lparr> lastTime := time, accumulator := accumulator (stateRef g) + (time - a) \<rparr> \<rparr>"
  have "I g0"
    using book [OF g, where a = time and b = "accumulator (stateRef g) + (time - a)"
        and c = "frameCounter (stateRef g)" and e = "shownScore g"]
    by (simp add: g0_def)
  then have 1: "I (catchUp d rs 0 g0)"
    using rs step upd by (rule catchUp_invariant)
  define g1 where "g1 = catchUp d rs 0 g0"
  have eq: "gameLoop d rs time g =
     (let g2 = g1 \<lparr> stateRef := (stateRef g1) \<lparr> frameCounter := frameCounter (stateRef g1) + 1 \<rparr> \<rparr>
      in if frameCounter (stateRef g2) mod 2 = 0
         then g2 \<lparr> shownScore := \<lfloor>score (stateRef g2)\<rfloor> \<rparr> else g2)"
    unfolding gameLoop_eq g1_def g0_def a_def Let_def ..
  have 2: "I (g1 \<lparr> stateRef := (stateRef g1) \<lparr> frameCounter := c \<rparr>, shownScore := e \<rparr>)" for c e
    using book [where g = g1 and a = "lastTime (stateRef g1)" and b = "accumulator (stateRef g1)"
        and c = c and e = e] 1
    by (simp add: g1_def)
  show ?thesis
    using 2 [where c = "frameCounter (stateRef g1) + 1" and e = "shownScore g1"]
      2 [where c = "frameCounter (stateRef g1) + 1" and e = "\<lfloor>score (stateRef g1)\<rfloor>"]
    by (simp add: eq Let_def)
qed

lemma handleTap_not_playing:
  "gameState g \<noteq> playing \<Longrightarrow> handleTap d rnd now g = handleStart d rnd g"
  by (cases "gameState g") (simp_all add: handleTap_def)

lemma run_invariant:
  assumes "I g"
    and "list_all VE es"
    and tapV: "\<And>rnd now. VE (Tap rnd now) \<Longrightarrow> VI rnd"
    and frameV: "\<And>rs time k. VE (Frame rs time) \<Longrightarrow> VR (rs k)"
    and init: "\<And>g rnd. VI rnd \<Longrightarrow> I (handleStart d rnd g)"
    and step: "\<And>g r. VR r \<Longrightarrow> I g \<Longrightarrow> I (updatePhysics d r g)"
    and tap: "\<And>g rnd now. I g \<Longrightarrow> gameState g = playing \<Longrightarrow> I (handleTap d rnd now g)"
    and book: "\<And>g a b c e. I g \<Longrightarrow>
       I (g \<lparr> stateRef := (stateRef g) \<lparr> lastTime := a, accumulator := b, frameCounter := c \<rparr>,
              shownScore := e \<rparr>)"
  shows "I (run d es g)"
  using assms(1,2)
proof (induction es arbitrary: g)
  case Nil
  then show ?case by simp
next
  case (Cons e es)
  have "I (play d e g)"
  proof (cases e)
    case (Tap rnd now)
    show ?thesis
    proof (cases "gameState g = playing")
      case True
      then show ?thesis using Cons.prems(1) Tap tap by simp
    next
      case False
      have "VE (Tap rnd now)"
        using Cons.prems(2) Tap by simp
      then have "VI rnd"
        by (rule tapV)
      then show ?thesis
        using False Tap init by (simp add: handleTap_not_playing)
    qed
  next
    case (Frame rs time)
    have "I (gameLoop d rs time g)"
      using Cons.prems(1) _ step book
    proof (rule gameLoop_invariant)
      have "VE (Frame rs time)"
        using Cons.prems(2) Frame by simp
      then show "VR (rs k)" for k
        by (rule frameV)
    qed
    then show ?thesis
      using Cons.prems(1) Frame by simp
  qed
  then show ?case
    using Cons.IH Cons.prems(2) by simp
qed

section \<open>C8: the terminal velocity\<close>

text \<open>
  C8. In every physics step the integration adds the gravity to the velocity, clamps the
  velocity to at most the terminal velocity (20) and only then adds it to the position;
  so the velocity after the integration, and after the whole step, is at most 20.
\<close>

theorem terminal_velocity_clamp:
  "velocity (integrate s) = min (velocity s + GRAVITY) TERMINAL_VELOCITY
   \<and> velocity (integrate s) \<le> TERMINAL_VELOCITY
   \<and> TERMINAL_VELOCITY = 20
   \<and> snowballY (integrate s) = snowballY s + velocity (integrate s)
   \<and> velocity (preCollision g) \<le> TERMINAL_VELOCITY
   \<and> velocity (stateRef (updatePhysics d r g)) \<le> TERMINAL_VELOCITY"
proof -
  have pre: "velocity (preCollision g) = min (velocity (stateRef g) + GRAVITY) TERMINAL_VELOCITY"
    by (simp add: preCollision_def decayTimers_def advance_def integrate_def Let_def)
  have "velocity (physics d g) \<le> TERMINAL_VELOCITY"
    using pre
    by (simp add: physics_eq Let_def land_def touchDown_def TERMINAL_VELOCITY_def JUMP_FORCE_def)
  moreover have "velocity (stateRef (updatePhysics d r g)) = velocity (physics d g)"
    using updatePhysics_actorState [of d r g] by (simp add: actorState_def)
  ultimately show ?thesis
    using pre by (simp add: integrate_def Let_def TERMINAL_VELOCITY_def)
qed

section \<open>C1: what a landing writes\<close>

text \<open>
  C1, as the code has it. In every physics step in which, after the integration, the
  snowball overlaps a tile horizontally, its bottom edge is at or below the surface by no
  more than the landing tolerance and its velocity is not negative, the resolver puts the
  bottom edge on the surface and records that position as the last grounded one; and if
  no buffered jump is pending (the jump buffer, after this step's decrement, is not
  positive) it zeroes the velocity, sets \<^verbatim>\<open>isOnGround\<close>, clears \<^verbatim>\<open>hasDoubleJump\<close> (the double
  jump is armed by a jump, not by a landing), refreshes the coyote timer to 8 and leaves
  the jump buffer alone. The rest of the step keeps the actor's state. What a pending
  buffered jump writes on top of the landing is the matter of C2 and is not stated here.
\<close>

theorem landing_resolution:
  assumes "t \<in> set (tiles (gameDataRef g))"
    and "horizontalOverlap (preCollision g) t"
    and "landingCondition d (preCollision g)"
  shows "snowballY (physics d g) = TILE_Y d - SNOWBALL_SIZE
    \<and> lastGroundY (physics d g) = snowballY (physics d g)
    \<and> (jumpBufferTimer (preCollision g) \<le> 0 \<longrightarrow>
          velocity (physics d g) = 0
          \<and> isOnGround (physics d g)
          \<and> \<not> hasDoubleJump (physics d g)
          \<and> coyoteTimer (physics d g) = COYOTE_TIME
          \<and> COYOTE_TIME = 8
          \<and> jumpBufferTimer (physics d g) = jumpBufferTimer (preCollision g))
    \<and> actorState (stateRef (updatePhysics d r g)) = actorState (physics d g)"
proof -
  from assms have "physics d g = land d (preCollision g)"
    by (auto simp: physics_eq Let_def)
  then show ?thesis
    by (simp add: land_def touchDown_def Let_def updatePhysics_actorState COYOTE_TIME_def)
qed

text \<open>
  The theorem at the falling snowball without a buffered jump, through the whole step,
  and the position of the one with a buffered jump.
\<close>

theorem landing_resolution_witness:
  "actorState (physics screen0 (falling 0)) = (560, 0, True, False, 8, 0, 560)
   \<and> actorState (stateRef (updatePhysics screen0 rand0 (falling 0)))
       = (560, 0, True, False, 8, 0, 560)
   \<and> snowballY (physics screen0 (falling 3)) = 560
   \<and> lastGroundY (physics screen0 (falling 3)) = 560"
proof -
  have a: "startTile \<in> set (tiles (gameDataRef (falling k)))" for k
    by (simp add: example_defs)
  have b: "horizontalOverlap (preCollision (falling k)) startTile" for k
    by (simp add: example_defs step_defs constant_defs Let_def)
  have c: "landingCondition screen0 (preCollision (falling k))" for k
    by (simp add: example_defs step_defs constant_defs Let_def)
  have j0: "jumpBufferTimer (preCollision (falling 0)) = 0"
    by (simp add: example_defs step_defs constant_defs Let_def)
  show ?thesis
    using landing_resolution [OF a b c, of 0 rand0] landing_resolution [OF a b c, of 3 rand0] j0
    by (simp add: actorState_def constant_defs screen0_def)
qed

text \<open>
  C1 as stated fails twice. The snowball of \<open>falling 0\<close> meets every condition of the
  claim and holds the double jump, and the landing takes the double jump away. The
  snowball of \<open>falling 3\<close> meets every condition too, with a buffered jump pending: the step
  leaves it in the air with the jump's velocity, neither grounded nor at rest.
\<close>

theorem landing_clears_double_jump:
  "startTile \<in> set (tiles (gameDataRef (falling 0)))
   \<and> horizontalOverlap (preCollision (falling 0)) startTile
   \<and> landingCondition screen0 (preCollision (falling 0))
   \<and> hasDoubleJump (stateRef (falling 0))
   \<and> \<not> hasDoubleJump (physics screen0 (falling 0))
   \<and> \<not> hasDoubleJump (stateRef (updatePhysics screen0 rand0 (falling 0)))
   \<and> startTile \<in> set (tiles (gameDataRef (falling 3)))
   \<and> horizontalOverlap (preCollision (falling 3)) startTile
   \<and> landingCondition screen0 (preCollision (falling 3))
   \<and> velocity (stateRef (updatePhysics screen0 rand0 (falling 3))) = JUMP_FORCE
   \<and> \<not> isOnGround (stateRef (updatePhysics screen0 rand0 (falling 3)))"
proof -
  have "\<not> hasDoubleJump (physics screen0 (falling 0))"
    by (simp add: example_defs step_defs constant_defs Let_def)
  moreover have "hasDoubleJump (stateRef (updatePhysics screen0 rand0 (falling 0)))
      = hasDoubleJump (physics screen0 (falling 0))"
    using updatePhysics_actorState [of screen0 rand0 "falling 0"] by (simp add: actorState_def)
  moreover have "horizontalOverlap (preCollision (falling k)) startTile" for k
    by (simp add: example_defs step_defs constant_defs Let_def)
  moreover have "landingCondition screen0 (preCollision (falling k))" for k
    by (simp add: example_defs step_defs constant_defs Let_def)
  moreover have "velocity (physics screen0 (falling 3)) = JUMP_FORCE
      \<and> \<not> isOnGround (physics screen0 (falling 3))"
    by (simp add: example_defs step_defs constant_defs Let_def)
  moreover have "velocity (stateRef (updatePhysics screen0 rand0 (falling 3)))
        = velocity (physics screen0 (falling 3))
      \<and> isOnGround (stateRef (updatePhysics screen0 rand0 (falling 3)))
        = isOnGround (physics screen0 (falling 3))"
    using updatePhysics_actorState [of screen0 rand0 "falling 3"] by (simp add: actorState_def)
  ultimately show ?thesis
    by (simp add: example_defs)
qed

section \<open>C2: the buffered jump on landing\<close>

lemmas example_defs2 = rnd0_def touchedDown_def airborne_def doubleJumped_def

text \<open>
  C2 at \<open>falling 3\<close>: the step lands with a buffered jump pending. The claim says the
  actor is then as after a fresh ground jump, whose coyote timer is 0 (line 330). The
  landing branch sets the coyote timer to 8 (line 457) and the buffered jump does not
  reset it: the jumping snowball leaves the ground with the coyote timer at 8.
\<close>

theorem buffered_jump_keeps_coyote_timer:
  "jumpBufferTimer (preCollision (falling 3)) > 0
   \<and> horizontalOverlap (preCollision (falling 3)) startTile
   \<and> landingCondition screen0 (preCollision (falling 3))
   \<and> actorState (stateRef (updatePhysics screen0 rand0 (falling 3)))
       = (560, JUMP_FORCE, False, True, 8, 0, 560)
   \<and> actorState (stateRef (handleTap screen0 rnd0 1000 touchedDown))
       = (560, JUMP_FORCE, False, True, 0, 2, 560)"
proof -
  have "actorState (physics screen0 (falling 3)) = (560, JUMP_FORCE, False, True, 8, 0, 560)"
    by (simp add: example_defs step_defs constant_defs Let_def)
  moreover have "actorState (stateRef (handleTap screen0 rnd0 1000 touchedDown))
       = (560, JUMP_FORCE, False, True, 0, 2, 560)"
    by (simp add: example_defs example_defs2 handleTap_def step_defs constant_defs Let_def)
  moreover have "jumpBufferTimer (preCollision (falling 3)) > 0
   \<and> horizontalOverlap (preCollision (falling 3)) startTile
   \<and> landingCondition screen0 (preCollision (falling 3))"
    by (simp add: example_defs step_defs constant_defs Let_def)
  ultimately show ?thesis
    by (simp add: updatePhysics_actorState)
qed

text \<open>
  What the stale coyote timer does: a tap ten milliseconds after the buffered jump, in
  the air, is taken as a ground jump again (\<open>-14\<close>), not as the double jump.
\<close>

lemma tap_after_buffered_jump:
  "\<not> isOnGround (stateRef (updatePhysics screen0 rand0 (falling 3)))
   \<and> hasDoubleJump (stateRef (updatePhysics screen0 rand0 (falling 3)))
   \<and> velocity (stateRef (handleTap screen0 rnd0 10 (updatePhysics screen0 rand0 (falling 3))))
       = JUMP_FORCE"
proof -
  have "actorState (stateRef (updatePhysics screen0 rand0 (falling 3)))
      = (560, JUMP_FORCE, False, True, 8, 0, 560)"
    unfolding updatePhysics_actorState
    by (simp add: example_defs step_defs constant_defs Let_def)
  moreover have "gameState (updatePhysics screen0 rand0 (falling 3)) = playing"
    by (simp add: example_defs step_defs constant_defs Let_def collectLoop_eq)
  ultimately show ?thesis
    by (simp add: handleTap_def Let_def actorState_def)
qed

section \<open>C3: the double jump and the third tap\<close>

lemma preCollision_flags:
  "isOnGround (preCollision g) = isOnGround (stateRef g)
   \<and> hasDoubleJump (preCollision g) = hasDoubleJump (stateRef g)
   \<and> coyoteTimer (preCollision g)
       = (if coyoteTimer (stateRef g) > 0 then coyoteTimer (stateRef g) - 1 else coyoteTimer (stateRef g))"
  by (simp add: preCollision_def decayTimers_def advance_def integrate_def Let_def)

lemma shouldLand_eq:
  "shouldLand d g =
     (landingCondition d (preCollision g)
      \<and> (\<exists>t\<in>set (tiles (gameDataRef g)). horizontalOverlap (preCollision g) t))"
  by (simp add: shouldLand_def tileLoop_eq)

lemma updatePhysics_gameState:
  "gameState (updatePhysics d r g)
     = (if snowballY (physics d g) > SCREEN_HEIGHT d + 100 then gameOver else gameState g)"
  by (simp add: updatePhysics_def Let_def handleGameOver_def spawn_def split: prod.splits)

lemma airborne_state:
  "stateRef airborne = (initialState screen0)
     \<lparr> snowballY := 2733 / 5, velocity := - (67 / 5), cameraX := 2188 / 625, speed := 2188 / 625,
       isOnGround := False, hasDoubleJump := True, score := 547 / 15625 \<rparr>
   \<and> gameState airborne = playing \<and> lastTapTimeRef airborne = 1000"
  by (simp add: example_defs example_defs2 handleTap_def step_defs constant_defs Let_def collectLoop_eq)

lemma updatePhysics_lastTap:
  "lastTapTimeRef (updatePhysics d r g) = lastTapTimeRef g"
  by (simp add: updatePhysics_def Let_def handleGameOver_def spawn_def split: prod.splits)

lemma airborne_step:
  assumes "\<not> isOnGround (stateRef h)"
    and "coyoteTimer (stateRef h) \<le> 0"
    and "\<not> shouldLand d h"
  shows "\<not> isOnGround (stateRef (updatePhysics d r h))"
    and "coyoteTimer (stateRef (updatePhysics d r h)) \<le> 0"
    and "hasDoubleJump (stateRef (updatePhysics d r h)) = hasDoubleJump (stateRef h)"
proof -
  have nl: "\<not> (landingCondition d (preCollision h)
      \<and> (\<exists>t\<in>set (tiles (gameDataRef h)). horizontalOverlap (preCollision h) t))"
    using assms(3) unfolding shouldLand_eq by blast
  have "physics d h = preCollision h"
    using assms(1) by (simp add: physics_eq nl Let_def preCollision_flags)
  then have "\<not> isOnGround (physics d h) \<and> coyoteTimer (physics d h) \<le> 0
      \<and> hasDoubleJump (physics d h) = hasDoubleJump (stateRef h)"
    using assms(1,2) by (simp add: preCollision_flags)
  then show "\<not> isOnGround (stateRef (updatePhysics d r h))"
    and "coyoteTimer (stateRef (updatePhysics d r h)) \<le> 0"
    and "hasDoubleJump (stateRef (updatePhysics d r h)) = hasDoubleJump (stateRef h)"
    using updatePhysics_actorState [of d r h] by (simp_all add: actorState_def)
qed

text \<open>
  C3, as the code has it. In a running game, a tap while the snowball is in the air, its
  coyote timer run out, the double jump available and less than 300 ms after the
  recorded tap sets the velocity to \<open>-11\<close>, clears \<^verbatim>\<open>hasDoubleJump\<close> and resets the recorded
  tap time to 0, and changes nothing else of the component. From then on, through every
  step that neither lands nor ends the run and through every further tap, the double
  jump stays used up: a further tap gives no jump and leaves position, velocity, flags
  and coyote timer alone; all it does is arm the jump buffer (6 frames) and record its
  time. The state the second tap needs is the one a first jump made by a tap (on the
  ground or in coyote time) leaves, together with the time of that tap, and every step
  that neither lands nor ends the run keeps both.
\<close>

theorem double_jump_once:
  assumes "gameState g = playing"
    and "\<not> isOnGround (stateRef g)"
    and "coyoteTimer (stateRef g) \<le> 0"
    and "hasDoubleJump (stateRef g)"
    and "now - lastTapTimeRef g < 300"
  shows "stateRef (handleTap d rnd now g)
       = (stateRef g) \<lparr> velocity := DOUBLE_JUMP_FORCE, hasDoubleJump := False \<rparr>
    \<and> DOUBLE_JUMP_FORCE = - 11
    \<and> lastTapTimeRef (handleTap d rnd now g) = 0
    \<and> handleTap d rnd now g
       = g \<lparr> stateRef := (stateRef g) \<lparr> velocity := DOUBLE_JUMP_FORCE, hasDoubleJump := False \<rparr>,
             lastTapTimeRef := 0 \<rparr>
    \<and> doubleJumpSpent (handleTap d rnd now g)
    \<and> (\<forall>h. doubleJumpSpent h \<longrightarrow>
          (\<forall>now'. stateRef (handleTap d rnd now' h)
                     = (stateRef h) \<lparr> jumpBufferTimer := JUMP_BUFFER_TIME \<rparr>
                 \<and> JUMP_BUFFER_TIME = 6
                 \<and> lastTapTimeRef (handleTap d rnd now' h) = now'
                 \<and> handleTap d rnd now' h
                    = h \<lparr> stateRef := (stateRef h) \<lparr> jumpBufferTimer := JUMP_BUFFER_TIME \<rparr>,
                          lastTapTimeRef := now' \<rparr>
                 \<and> doubleJumpSpent (handleTap d rnd now' h))
        \<and> (\<forall>r. \<not> shouldLand d h \<and> snowballY (physics d h) \<le> SCREEN_HEIGHT d + 100
                 \<longrightarrow> doubleJumpSpent (updatePhysics d r h)))
    \<and> (\<forall>f now0. gameState f = playing
                  \<and> (isOnGround (stateRef f) \<or> coyoteTimer (stateRef f) > 0) \<longrightarrow>
          doubleJumpReady (handleTap d rnd now0 f)
          \<and> velocity (stateRef (handleTap d rnd now0 f)) = JUMP_FORCE
          \<and> lastTapTimeRef (handleTap d rnd now0 f) = now0)
    \<and> (\<forall>h r. doubleJumpReady h \<and> \<not> shouldLand d h
               \<and> snowballY (physics d h) \<le> SCREEN_HEIGHT d + 100 \<longrightarrow>
          doubleJumpReady (updatePhysics d r h)
          \<and> lastTapTimeRef (updatePhysics d r h) = lastTapTimeRef h)"
proof -
  have first: "handleTap d rnd now g
       = g \<lparr> stateRef := (stateRef g) \<lparr> velocity := DOUBLE_JUMP_FORCE, hasDoubleJump := False \<rparr>,
             lastTapTimeRef := 0 \<rparr>"
    using assms by (simp add: handleTap_def Let_def)
  have first1: "stateRef (handleTap d rnd now g)
       = (stateRef g) \<lparr> velocity := DOUBLE_JUMP_FORCE, hasDoubleJump := False \<rparr>"
    and first2: "lastTapTimeRef (handleTap d rnd now g) = 0"
    and first3: "doubleJumpSpent (handleTap d rnd now g)"
    unfolding first using assms by (simp_all add: doubleJumpSpent_def)
  have tap: "handleTap d rnd now' h
                    = h \<lparr> stateRef := (stateRef h) \<lparr> jumpBufferTimer := JUMP_BUFFER_TIME \<rparr>,
                          lastTapTimeRef := now' \<rparr>"
    if "doubleJumpSpent h" for h now'
    using that by (simp add: handleTap_def Let_def doubleJumpSpent_def)
  have tap1: "stateRef (handleTap d rnd now' h)
                     = (stateRef h) \<lparr> jumpBufferTimer := JUMP_BUFFER_TIME \<rparr>"
    and tap2: "lastTapTimeRef (handleTap d rnd now' h) = now'"
    and tap3: "doubleJumpSpent (handleTap d rnd now' h)"
    if "doubleJumpSpent h" for h now'
    unfolding tap [OF that] using that by (simp_all add: doubleJumpSpent_def)
  have alive: "gameState (updatePhysics d r h) = playing"
    if "gameState h = playing" "snowballY (physics d h) \<le> SCREEN_HEIGHT d + 100" for h r
    using that by (simp add: updatePhysics_gameState)
  have step: "doubleJumpSpent (updatePhysics d r h)"
    if "doubleJumpSpent h" "\<not> shouldLand d h"
      "snowballY (physics d h) \<le> SCREEN_HEIGHT d + 100" for h r
    using that airborne_step [of h d r] alive [of h r]
    by (simp add: doubleJumpSpent_def)
  have ready: "doubleJumpReady (updatePhysics d r h)
          \<and> lastTapTimeRef (updatePhysics d r h) = lastTapTimeRef h"
    if "doubleJumpReady h" "\<not> shouldLand d h"
      "snowballY (physics d h) \<le> SCREEN_HEIGHT d + 100" for h r
    using that airborne_step [of h d r] alive [of h r]
    by (simp add: doubleJumpReady_def updatePhysics_lastTap)
  have jump: "doubleJumpReady (handleTap d rnd now0 f)
          \<and> velocity (stateRef (handleTap d rnd now0 f)) = JUMP_FORCE
          \<and> lastTapTimeRef (handleTap d rnd now0 f) = now0"
    if "gameState f = playing" "isOnGround (stateRef f) \<or> coyoteTimer (stateRef f) > 0"
    for f now0
    using that by (simp add: handleTap_def Let_def doubleJumpReady_def)
  have sizes: "DOUBLE_JUMP_FORCE = - 11" "JUMP_BUFFER_TIME = 6"
    by (simp_all add: DOUBLE_JUMP_FORCE_def JUMP_BUFFER_TIME_def)
  from first first1 first2 first3 tap tap1 tap2 tap3 step ready jump sizes show ?thesis
    by blast
qed

text \<open>
  The theorem at the snowball of \<open>airborne\<close>, which a tap at 1000 on the ground and one
  step have put into the air: a tap at 1100, then one at 1150.
\<close>

theorem double_jump_once_witness:
  "velocity (stateRef (handleTap screen0 rnd0 1100 airborne)) = - 11
   \<and> \<not> hasDoubleJump (stateRef (handleTap screen0 rnd0 1100 airborne))
   \<and> lastTapTimeRef (handleTap screen0 rnd0 1100 airborne) = 0
   \<and> velocity (stateRef (handleTap screen0 rnd0 1150 (handleTap screen0 rnd0 1100 airborne))) = - 11
   \<and> jumpBufferTimer (stateRef (handleTap screen0 rnd0 1150 (handleTap screen0 rnd0 1100 airborne))) = 6
   \<and> lastTapTimeRef (handleTap screen0 rnd0 1150 (handleTap screen0 rnd0 1100 airborne)) = 1150
   \<and> doubleJumpReady (handleTap screen0 rnd0 1000 game0)
   \<and> lastTapTimeRef (handleTap screen0 rnd0 1000 game0) = 1000"
proof -
  have a: "gameState airborne = playing" "\<not> isOnGround (stateRef airborne)"
    "coyoteTimer (stateRef airborne) \<le> 0" "hasDoubleJump (stateRef airborne)"
    "1100 - lastTapTimeRef airborne < 300"
    by (simp_all add: airborne_state initialState_def)
  have b: "gameState game0 = playing \<and> (isOnGround (stateRef game0) \<or> coyoteTimer (stateRef game0) > 0)"
    by (simp add: game0_def initialState_def)
  note t = double_jump_once [OF a, of screen0 rnd0]
  have t1: "stateRef (handleTap screen0 rnd0 1100 airborne)
       = (stateRef airborne) \<lparr> velocity := DOUBLE_JUMP_FORCE, hasDoubleJump := False \<rparr>"
    and t2: "lastTapTimeRef (handleTap screen0 rnd0 1100 airborne) = 0"
    and t3: "doubleJumpSpent (handleTap screen0 rnd0 1100 airborne)"
    using t by blast+
  have t4: "stateRef (handleTap screen0 rnd0 1150 (handleTap screen0 rnd0 1100 airborne))
       = (stateRef (handleTap screen0 rnd0 1100 airborne)) \<lparr> jumpBufferTimer := JUMP_BUFFER_TIME \<rparr>"
    and t5: "lastTapTimeRef (handleTap screen0 rnd0 1150 (handleTap screen0 rnd0 1100 airborne)) = 1150"
    using t t3 by blast+
  have t6: "doubleJumpReady (handleTap screen0 rnd0 1000 game0)
      \<and> lastTapTimeRef (handleTap screen0 rnd0 1000 game0) = 1000"
    using t b by blast
  show ?thesis
    using t2 t5 t6 by (simp add: t4 t1 airborne_state initialState_def constant_defs)
qed

text \<open>
  C3 as stated fails: the third tap, after the double jump and before any landing,
  changes the actor's state; it arms the jump buffer.
\<close>

theorem third_tap_arms_jump_buffer:
  "gameState doubleJumped = playing
   \<and> velocity (stateRef doubleJumped) = DOUBLE_JUMP_FORCE
   \<and> \<not> isOnGround (stateRef doubleJumped)
   \<and> jumpBufferTimer (stateRef doubleJumped) = 0
   \<and> jumpBufferTimer (stateRef (handleTap screen0 rnd0 1150 doubleJumped)) = 6
   \<and> actorState (stateRef (handleTap screen0 rnd0 1150 doubleJumped))
       \<noteq> actorState (stateRef doubleJumped)"
  by (simp add: doubleJumped_def airborne_state initialState_def handleTap_def Let_def
      actorState_def constant_defs)

section \<open>C9: picking up a collectible\<close>

lemma spawn_collectibles:
  "collectibles (gameDataRef (snd (spawn d r s act g))) =
     collectibles (gameDataRef g) @
       (if act \<noteq> [] \<and> tile_x (last act) + tile_width (last act) / 2 < cameraX s + SPAWN_AHEAD_DISTANCE d
           \<and> rBonus r < 3 / 10
        then [\<lparr> col_id = collectibleIdCounter g,
                col_x = tile_x (last act) + (tile_width (last act) / 2) + pick GAP_SIZES (rGap r)
                          + (pick TILE_WIDTHS (rWidth r) / 2),
                col_tileId = tileIdCounter g, collected = False \<rparr>]
        else [])"
  by (simp add: spawn_def Let_def)

lemma updatePhysics_alive:
  assumes "snowballY (physics d g) \<le> SCREEN_HEIGHT d + 100"
  shows "collectibles (gameDataRef (updatePhysics d r g))
       = map (\<lambda>k. if \<not> collected k \<and> pickup d (physics d g) k then k \<lparr> collected := True \<rparr> else k)
           (activeCollectibles d r g)"
    and "score (stateRef (updatePhysics d r g))
       = score (physics d g)
         + 10 * real (length (filter (\<lambda>k. \<not> collected k \<and> pickup d (physics d g) k)
                               (activeCollectibles d r g)))"
  using assms
  by (simp_all add: updatePhysics_def activeCollectibles_def Let_def collectLoop_eq split: prod.splits)

lemma updatePhysics_dead:
  assumes "snowballY (physics d g) > SCREEN_HEIGHT d + 100"
  shows "updatePhysics d r g = g \<lparr> stateRef := physics d g, gameState := gameOver \<rparr>"
  using assms by (simp add: updatePhysics_def Let_def handleGameOver_def)

lemma pickup_alive:
  "pickup d s c \<Longrightarrow> snowballY s \<le> SCREEN_HEIGHT d + 100"
  unfolding pickup_def Let_def TILE_Y_def by linarith

lemma pickup_collected [simp]: "pickup d s (k \<lparr> collected := b \<rparr>) = pickup d s k"
  by (simp add: pickup_def)

lemma activeCollectibles_eq:
  "activeCollectibles d r g =
     filter (\<lambda>c. col_x c > cameraX (physics d g) - SCREEN_WIDTH d)
       (collectibles (gameDataRef (snd (spawn d r (physics d g)
          (activeTiles d (physics d g) (tiles (gameDataRef g))) (g \<lparr> stateRef := physics d g \<rparr>)))))"
  by (simp add: activeCollectibles_def Let_def split: prod.splits)

lemma collectLoop_inert:
  "\<forall>k\<in>set cs. collected k \<Longrightarrow> collectLoop d s cs = (cs, s)"
  by (induction cs) simp_all

lemma activeCollectibles_mem:
  assumes "c \<in> set (collectibles (gameDataRef g))"
    and "col_x c > cameraX (physics d g) - SCREEN_WIDTH d"
  shows "c \<in> set (activeCollectibles d r g)"
  using assms by (simp add: activeCollectibles_eq spawn_collectibles)

lemma picked_mem:
  assumes cols: "xs = map (\<lambda>k. if \<not> collected k \<and> pickup d s k then k \<lparr> collected := True \<rparr> else k) ys"
    and act: "c \<in> set ys" "\<not> collected c" "pickup d s c"
  shows "c \<lparr> collected := True \<rparr> \<in> set xs"
  unfolding cols set_map
proof (rule image_eqI [where x = c])
  show "c \<lparr> collected := True \<rparr>
      = (if \<not> collected c \<and> pickup d s c then c \<lparr> collected := True \<rparr> else c)"
    using act(2,3) by simp
  show "c \<in> set ys"
    by (rule act(1))
qed

lemma picked_all:
  assumes cols: "xs = map (\<lambda>k. if \<not> collected k \<and> pickup d s k then k \<lparr> collected := True \<rparr> else k) ys"
  shows "\<forall>k\<in>set xs. pickup d s k \<longrightarrow> collected k"
  unfolding cols by auto

text \<open>
  C9. Take a collectible of the game that is not collected, has not scrolled out (it
  passes the purge of line 515) and, for the snowball as the collision phase of this step
  leaves it, lies less than 40 from the snowball horizontally while the snowball is within
  50 of the height \<open>TILE_Y - 70\<close>. Then the step sets its flag: the collected copy is in the
  list after the step. The list after the step is the active list with exactly the
  uncollected collectibles in reach flagged, and the score is the score of the physics
  phase plus 10 for each of them: exactly 10 when this collectible is the only one. After
  the step no collectible in reach is uncollected. A collected collectible is inert: the
  pickup loop returns a list of collected collectibles and the state unchanged.
\<close>

theorem collectible_pickup:
  assumes "c \<in> set (collectibles (gameDataRef g))"
    and "col_x c > cameraX (physics d g) - SCREEN_WIDTH d"
    and "\<not> collected c"
    and "pickup d (physics d g) c"
  shows "c \<in> set (activeCollectibles d r g)
    \<and> c \<lparr> collected := True \<rparr> \<in> set (collectibles (gameDataRef (updatePhysics d r g)))
    \<and> collectibles (gameDataRef (updatePhysics d r g))
        = map (\<lambda>k. if \<not> collected k \<and> pickup d (physics d g) k then k \<lparr> collected := True \<rparr> else k)
            (activeCollectibles d r g)
    \<and> score (stateRef (updatePhysics d r g))
        = score (physics d g)
          + 10 * real (length (filter (\<lambda>k. \<not> collected k \<and> pickup d (physics d g) k)
                                (activeCollectibles d r g)))
    \<and> (filter (\<lambda>k. \<not> collected k \<and> pickup d (physics d g) k) (activeCollectibles d r g) = [c]
         \<longrightarrow> score (stateRef (updatePhysics d r g)) = score (physics d g) + 10)
    \<and> (\<forall>k\<in>set (collectibles (gameDataRef (updatePhysics d r g))).
          pickup d (physics d g) k \<longrightarrow> collected k)
    \<and> (\<forall>s cs. (\<forall>k\<in>set cs. collected k) \<longrightarrow> collectLoop d s cs = (cs, s))"
proof -
  let ?P = "\<lambda>k. \<not> collected k \<and> pickup d (physics d g) k"
  have alive: "snowballY (physics d g) \<le> SCREEN_HEIGHT d + 100"
    using assms(4) by (rule pickup_alive)
  have act: "c \<in> set (activeCollectibles d r g)"
    using assms(1,2) by (rule activeCollectibles_mem)
  have cols: "collectibles (gameDataRef (updatePhysics d r g))
        = map (\<lambda>k. if ?P k then k \<lparr> collected := True \<rparr> else k) (activeCollectibles d r g)"
    using alive by (rule updatePhysics_alive(1))
  have sc: "score (stateRef (updatePhysics d r g))
        = score (physics d g) + 10 * real (length (filter ?P (activeCollectibles d r g)))"
    using alive by (rule updatePhysics_alive(2))
  have mem: "c \<lparr> collected := True \<rparr> \<in> set (collectibles (gameDataRef (updatePhysics d r g)))"
    using cols act assms(3,4) by (rule picked_mem)
  have all: "\<forall>k\<in>set (collectibles (gameDataRef (updatePhysics d r g))).
          pickup d (physics d g) k \<longrightarrow> collected k"
    using cols by (rule picked_all)
  have one: "filter ?P (activeCollectibles d r g) = [c]
         \<longrightarrow> score (stateRef (updatePhysics d r g)) = score (physics d g) + 10"
    unfolding sc by simp
  have inert: "\<forall>s cs. (\<forall>k\<in>set cs. collected k) \<longrightarrow> collectLoop d s cs = (cs, s)"
    using collectLoop_inert by blast
  from act mem cols sc one all inert show ?thesis
    by blast
qed

lemma giftGame_physics:
  "physics screen0 giftGame = (initialState screen0)
     \<lparr> cameraX := 2188 / 625, speed := 2188 / 625, score := 547 / 15625, coyoteTimer := 8 \<rparr>"
  by (simp add: giftGame_def gift_def example_defs step_defs constant_defs Let_def)

lemma giftGame_active:
  "activeCollectibles screen0 rand0 giftGame =
      [gift, \<lparr> col_id = 1, col_x = 575, col_tileId = 1, collected = False \<rparr>]"
  unfolding activeCollectibles_eq spawn_collectibles giftGame_physics activeTiles_def
  by (simp add: giftGame_def gift_def example_defs constant_defs pick_def)

lemma giftGame_filter:
  "filter (\<lambda>k. \<not> collected k \<and> pickup screen0 (physics screen0 giftGame) k)
      (activeCollectibles screen0 rand0 giftGame) = [gift]"
  unfolding giftGame_active giftGame_physics
  by (simp add: gift_def screen0_def initialState_def pickup_def constant_defs)

text \<open>The theorem at the gift: it is collected, for 10 points.\<close>

theorem collectible_pickup_witness:
  "gift \<lparr> collected := True \<rparr> \<in> set (collectibles (gameDataRef (updatePhysics screen0 rand0 giftGame)))
   \<and> score (stateRef (updatePhysics screen0 rand0 giftGame)) = score (physics screen0 giftGame) + 10"
proof -
  have a: "gift \<in> set (collectibles (gameDataRef giftGame))"
    by (simp add: giftGame_def)
  have b: "col_x gift > cameraX (physics screen0 giftGame) - SCREEN_WIDTH screen0"
    unfolding giftGame_physics by (simp add: gift_def screen0_def initialState_def)
  have c: "\<not> collected gift"
    by (simp add: gift_def)
  have e: "pickup screen0 (physics screen0 giftGame) gift"
    unfolding giftGame_physics
    by (simp add: gift_def screen0_def initialState_def pickup_def constant_defs)
  show ?thesis
    using collectible_pickup [OF a b c e, of rand0] giftGame_filter by blast
qed

section \<open>C6: the score\<close>

lemma preCollision_speed:
  "speed (preCollision g) = min (speed (stateRef g) + SPEED_INCREMENT) MAX_SPEED
   \<and> score (preCollision g) = score (stateRef g) + speed (preCollision g) / 100"
  by (simp add: preCollision_def decayTimers_def advance_def integrate_def Let_def)

lemma physics_speed:
  "speed (physics d g) = speed (preCollision g) \<and> score (physics d g) = score (preCollision g)"
  by (simp add: physics_eq Let_def land_def touchDown_def)

lemma updatePhysics_speed:
  "speed (stateRef (updatePhysics d r g)) = speed (physics d g)"
  by (simp add: updatePhysics_def Let_def handleGameOver_def collectLoop_eq split: prod.splits)

lemma updatePhysics_score:
  "score (stateRef (updatePhysics d r g)) =
     score (stateRef g) + speed (stateRef (updatePhysics d r g)) / 100
     + (if snowballY (physics d g) > SCREEN_HEIGHT d + 100 then 0
        else 10 * real (length (filter (\<lambda>k. \<not> collected k \<and> pickup d (physics d g) k)
                                  (activeCollectibles d r g))))"
proof (cases "snowballY (physics d g) > SCREEN_HEIGHT d + 100")
  case True
  then show ?thesis
    by (simp add: updatePhysics_dead physics_speed preCollision_speed)
next
  case False
  then have "snowballY (physics d g) \<le> SCREEN_HEIGHT d + 100"
    by simp
  then show ?thesis
    using False
    by (simp add: updatePhysics_alive(2) updatePhysics_speed physics_speed preCollision_speed)
qed

lemma speed_kept:
  assumes "INITIAL_SPEED \<le> speed (stateRef g)"
  shows "INITIAL_SPEED \<le> speed (stateRef (updatePhysics d r g))"
  using assms
  by (simp add: updatePhysics_speed physics_speed preCollision_speed
      INITIAL_SPEED_def SPEED_INCREMENT_def MAX_SPEED_def)

lemma score_step:
  assumes "INITIAL_SPEED \<le> speed (stateRef g)"
  shows "score (stateRef g) \<le> score (stateRef (updatePhysics d r g))"
proof -
  have "0 \<le> speed (stateRef (updatePhysics d r g))"
    using speed_kept [OF assms, of d r] by (simp add: INITIAL_SPEED_def)
  then show ?thesis
    by (simp add: updatePhysics_score [of d r g])
qed

lemma handleStart_state:
  "stateRef (handleStart d rnd g) = initialState d \<and> shownScore (handleStart d rnd g) = 0
   \<and> gameState (handleStart d rnd g) = playing"
  by (simp add: handleStart_def initGame_def Let_def split: prod.splits)

lemma handleTap_playing_score:
  "gameState g = playing \<Longrightarrow>
     score (stateRef (handleTap d rnd now g)) = score (stateRef g)
     \<and> speed (stateRef (handleTap d rnd now g)) = speed (stateRef g)"
  by (simp add: handleTap_def Let_def)

lemma speed_in_run:
  "INITIAL_SPEED \<le> speed (stateRef (run d es (handleStart d rnd g0)))"
proof (rule run_invariant
    [where I = "\<lambda>h. INITIAL_SPEED \<le> speed (stateRef h)" and VE = "\<lambda>_. True"
       and VI = "\<lambda>_. True" and VR = "\<lambda>_. True"])
  show "INITIAL_SPEED \<le> speed (stateRef (handleStart d rnd g0))"
    by (simp add: handleStart_state initialState_def)
  show "list_all (\<lambda>_. True) es"
    by (simp add: list_all_iff)
  show "INITIAL_SPEED \<le> speed (stateRef (handleStart d rnd g))" for g rnd
    by (simp add: handleStart_state initialState_def)
  show "INITIAL_SPEED \<le> speed (stateRef (updatePhysics d r g))"
    if "INITIAL_SPEED \<le> speed (stateRef g)" for g r
    using that by (rule speed_kept)
  show "INITIAL_SPEED \<le> speed (stateRef (handleTap d rnd now g))"
    if "INITIAL_SPEED \<le> speed (stateRef g)" "gameState g = playing" for g rnd now
    using that by (simp add: handleTap_playing_score)
qed simp_all

lemma score_frame:
  assumes "INITIAL_SPEED \<le> speed (stateRef g)"
  shows "score (stateRef g) \<le> score (stateRef (gameLoop d rs time g))"
proof -
  have "INITIAL_SPEED \<le> speed (stateRef (gameLoop d rs time g))
      \<and> score (stateRef g) \<le> score (stateRef (gameLoop d rs time g))"
  proof (rule gameLoop_invariant
      [where I = "\<lambda>h. INITIAL_SPEED \<le> speed (stateRef h) \<and> score (stateRef g) \<le> score (stateRef h)"
         and VR = "\<lambda>_. True"])
    show "INITIAL_SPEED \<le> speed (stateRef g) \<and> score (stateRef g) \<le> score (stateRef g)"
      using assms by simp
    show "INITIAL_SPEED \<le> speed (stateRef (updatePhysics d r h))
        \<and> score (stateRef g) \<le> score (stateRef (updatePhysics d r h))"
      if "INITIAL_SPEED \<le> speed (stateRef h) \<and> score (stateRef g) \<le> score (stateRef h)" for h r
      using that speed_kept [of h d r] score_step [of h d r] by simp
  qed simp_all
  then show ?thesis by simp
qed

text \<open>
  C6. Every start (\<^verbatim>\<open>handleStart\<close>, from any state of the component) sets the score, and the
  displayed score, to 0. Let \<open>g\<close> be the game after any sequence of taps and frames since a
  start. Then a physics step from \<open>g\<close> does not lower the score: it adds the ramped speed
  over 100, which is positive, and, unless the step ends the run, 10 for every collectible
  it picks up. A whole frame does not lower the score either, and a tap during play
  leaves it alone; a tap outside play is a start.
\<close>

theorem score_monotone:
  assumes "g = run d es (handleStart d rnd g0)"
  shows "score (stateRef (handleStart d rnd g0)) = 0
    \<and> shownScore (handleStart d rnd g0) = 0
    \<and> score (stateRef g) \<le> score (stateRef (updatePhysics d r g))
    \<and> score (stateRef (updatePhysics d r g)) =
        score (stateRef g) + speed (stateRef (updatePhysics d r g)) / 100
        + (if snowballY (physics d g) > SCREEN_HEIGHT d + 100 then 0
           else 10 * real (length (filter (\<lambda>k. \<not> collected k \<and> pickup d (physics d g) k)
                                     (activeCollectibles d r g))))
    \<and> 0 < speed (stateRef (updatePhysics d r g))
    \<and> score (stateRef g) \<le> score (stateRef (gameLoop d rs time g))
    \<and> (gameState g = playing \<longrightarrow> score (stateRef (handleTap d rnd' now g)) = score (stateRef g))
    \<and> (gameState g \<noteq> playing \<longrightarrow> score (stateRef (handleTap d rnd' now g)) = 0)"
proof -
  have inv: "INITIAL_SPEED \<le> speed (stateRef g)"
    unfolding assms by (rule speed_in_run)
  have 1: "score (stateRef (handleStart d rnd g0)) = 0" "shownScore (handleStart d rnd g0) = 0"
    by (simp_all add: handleStart_state initialState_def)
  have 2: "score (stateRef g) \<le> score (stateRef (updatePhysics d r g))"
    using inv by (rule score_step)
  have 3: "0 < speed (stateRef (updatePhysics d r g))"
    using speed_kept [OF inv, of d r] by (simp add: INITIAL_SPEED_def)
  have 4: "score (stateRef g) \<le> score (stateRef (gameLoop d rs time g))"
    using inv by (rule score_frame)
  have 5: "gameState g = playing \<longrightarrow> score (stateRef (handleTap d rnd' now g)) = score (stateRef g)"
    by (simp add: handleTap_playing_score)
  have 6: "gameState g \<noteq> playing \<longrightarrow> score (stateRef (handleTap d rnd' now g)) = 0"
    by (simp add: handleTap_not_playing handleStart_state initialState_def)
  from 1 2 updatePhysics_score [of d r g] 3 4 5 6 show ?thesis
    by blast
qed

text \<open>The theorem at a run that starts and jumps at once.\<close>

theorem score_monotone_witness:
  "score (stateRef (handleStart screen0 rnd0 game0)) = 0
   \<and> gameState (run screen0 [Tap rnd0 5] (handleStart screen0 rnd0 game0)) = playing
   \<and> velocity (stateRef (run screen0 [Tap rnd0 5] (handleStart screen0 rnd0 game0))) = JUMP_FORCE
   \<and> score (stateRef (run screen0 [Tap rnd0 5] (handleStart screen0 rnd0 game0)))
       \<le> score (stateRef (updatePhysics screen0 rand0
             (run screen0 [Tap rnd0 5] (handleStart screen0 rnd0 game0))))
   \<and> 0 < speed (stateRef (updatePhysics screen0 rand0
             (run screen0 [Tap rnd0 5] (handleStart screen0 rnd0 game0))))
   \<and> score (stateRef (handleTap screen0 rnd0 9
             (run screen0 [Tap rnd0 5] (handleStart screen0 rnd0 game0))))
       = score (stateRef (run screen0 [Tap rnd0 5] (handleStart screen0 rnd0 game0)))"
proof -
  have p: "gameState (run screen0 [Tap rnd0 5] (handleStart screen0 rnd0 game0)) = playing
      \<and> velocity (stateRef (run screen0 [Tap rnd0 5] (handleStart screen0 rnd0 game0))) = JUMP_FORCE"
    by (simp add: handleTap_def handleStart_state initialState_def Let_def)
  show ?thesis
    using p score_monotone [OF refl, where d = screen0 and es = "[Tap rnd0 5]" and rnd = rnd0
        and ?g0.0 = game0 and r = rand0 and rnd' = rnd0 and now = 9]
    by blast
qed

section \<open>C10: no tiles, no spawning\<close>

lemma spawn_empty: "spawn d r s [] g = ([], g)"
  by (simp add: spawn_def)

lemma picked_ids:
  "map col_id (map (\<lambda>k. if P k then k \<lparr> collected := True \<rparr> else k) xs) = map col_id xs"
  by (induction xs) simp_all

lemma updatePhysics_active_empty:
  assumes "snowballY (physics d g) \<le> SCREEN_HEIGHT d + 100"
    and "activeTiles d (physics d g) (tiles (gameDataRef g)) = []"
  shows "tiles (gameDataRef (updatePhysics d r g)) = []"
    and "tileIdCounter (updatePhysics d r g) = tileIdCounter g"
    and "collectibleIdCounter (updatePhysics d r g) = collectibleIdCounter g"
    and "collectibles (gameDataRef (updatePhysics d r g)) =
       map (\<lambda>k. if \<not> collected k \<and> pickup d (physics d g) k then k \<lparr> collected := True \<rparr> else k)
         (filter (\<lambda>c. col_x c > cameraX (physics d g) - SCREEN_WIDTH d) (collectibles (gameDataRef g)))"
  using assms
  by (simp_all add: updatePhysics_def Let_def spawn_empty collectLoop_eq)

lemma nothingCreated_step:
  assumes "nothingCreated g h"
  shows "nothingCreated g (updatePhysics d r h)"
proof (cases "snowballY (physics d h) > SCREEN_HEIGHT d + 100")
  case True
  then show ?thesis
    using assms by (simp add: updatePhysics_dead nothingCreated_def)
next
  case False
  then have alive: "snowballY (physics d h) \<le> SCREEN_HEIGHT d + 100"
    by simp
  have empty: "activeTiles d (physics d h) (tiles (gameDataRef h)) = []"
    using assms by (simp add: nothingCreated_def activeTiles_def)
  let ?f = "\<lambda>k. if \<not> collected k \<and> pickup d (physics d h) k then k \<lparr> collected := True \<rparr> else k"
  let ?kept = "filter (\<lambda>c. col_x c > cameraX (physics d h) - SCREEN_WIDTH d) (collectibles (gameDataRef h))"
  have cols: "collectibles (gameDataRef (updatePhysics d r h)) = map ?f ?kept"
    using alive empty by (rule updatePhysics_active_empty(4))
  have ids: "map col_id (collectibles (gameDataRef (updatePhysics d r h))) = map col_id ?kept"
    unfolding cols by (rule picked_ids)
  have "set (map col_id ?kept) \<subseteq> set (map col_id (collectibles (gameDataRef h)))"
    by auto
  moreover have "length (collectibles (gameDataRef (updatePhysics d r h)))
      \<le> length (collectibles (gameDataRef h))"
    unfolding cols by simp
  ultimately show ?thesis
    using assms updatePhysics_active_empty(1,2,3) [OF alive empty, of r] ids
    unfolding nothingCreated_def by (metis order_trans)
qed

lemma nothingCreated_frame:
  assumes "nothingCreated g h"
  shows "nothingCreated g (gameLoop d rs time h)"
  using assms
proof (rule gameLoop_invariant [where I = "nothingCreated g" and VR = "\<lambda>_. True"])
  show "nothingCreated g (updatePhysics d r h)" if "nothingCreated g h" for h r
    using that by (rule nothingCreated_step)
  show "nothingCreated g
      (h \<lparr> stateRef := (stateRef h) \<lparr> lastTime := a, accumulator := b, frameCounter := c \<rparr>,
           shownScore := e \<rparr>)" if "nothingCreated g h" for h a b c e
    using that by (simp add: nothingCreated_def)
qed simp

lemma nothingCreated_tap:
  assumes "nothingCreated g h" and "gameState h = playing"
  shows "nothingCreated g (handleTap d rnd now h)"
  using assms by (simp add: handleTap_def Let_def nothingCreated_def)

lemma nothingCreated_run:
  assumes "nothingCreated g h" and "sameRun d es h"
  shows "nothingCreated g (run d es h)"
  using assms
proof (induction es arbitrary: h)
  case Nil
  then show ?case by simp
next
  case (Cons e es)
  show ?case
  proof (cases e)
    case (Tap rnd now)
    then show ?thesis
      using Cons nothingCreated_tap [of g h d rnd now] by simp
  next
    case (Frame rs time)
    then show ?thesis
      using Cons nothingCreated_frame [of g h d rs time] by simp
  qed
qed

text \<open>
  C10. If a step reaches the retirement filter of line 487 (the snowball has not died
  in this step) and the filter leaves no active tile, then the step ends with an empty
  tile list and creates neither a tile nor a collectible; and so does every later step:
  the one right after, and all steps of all frames, with taps in between, for as long as
  the run lasts.
\<close>

theorem empty_tiles_absorbing:
  assumes "snowballY (physics d g) \<le> SCREEN_HEIGHT d + 100"
    and "activeTiles d (physics d g) (tiles (gameDataRef g)) = []"
  shows "nothingCreated g (updatePhysics d r g)
    \<and> (\<forall>r'. nothingCreated g (updatePhysics d r' (updatePhysics d r g)))
    \<and> (\<forall>es. sameRun d es (updatePhysics d r g)
           \<longrightarrow> nothingCreated g (run d es (updatePhysics d r g)))"
proof -
  let ?f = "\<lambda>k. if \<not> collected k \<and> pickup d (physics d g) k then k \<lparr> collected := True \<rparr> else k"
  let ?kept = "filter (\<lambda>c. col_x c > cameraX (physics d g) - SCREEN_WIDTH d) (collectibles (gameDataRef g))"
  have cols: "collectibles (gameDataRef (updatePhysics d r g)) = map ?f ?kept"
    using assms by (rule updatePhysics_active_empty(4))
  have ids: "map col_id (collectibles (gameDataRef (updatePhysics d r g))) = map col_id ?kept"
    unfolding cols by (rule picked_ids)
  have sub: "set (map col_id ?kept) \<subseteq> set (map col_id (collectibles (gameDataRef g)))"
    by auto
  have len: "length (collectibles (gameDataRef (updatePhysics d r g)))
      \<le> length (collectibles (gameDataRef g))"
    unfolding cols by simp
  have first: "nothingCreated g (updatePhysics d r g)"
    using updatePhysics_active_empty(1,2,3) [OF assms, of r] ids sub len
    unfolding nothingCreated_def by simp
  have "nothingCreated g (updatePhysics d r' (updatePhysics d r g))" for r'
    using first by (rule nothingCreated_step)
  moreover have "nothingCreated g (run d es (updatePhysics d r g))"
    if "sameRun d es (updatePhysics d r g)" for es
    using first that by (rule nothingCreated_run)
  ultimately show ?thesis
    using first by blast
qed

lemma stranded_physics:
  "physics screen0 stranded = (initialState screen0)
     \<lparr> snowballY := 2803 / 5, velocity := 3 / 5, cameraX := 627188 / 625, speed := 2188 / 625,
       isOnGround := False, score := 547 / 15625, coyoteTimer := 8 \<rparr>"
  by (simp add: stranded_def example_defs step_defs constant_defs Let_def)

text \<open>The theorem at the stranded snowball.\<close>

theorem empty_tiles_absorbing_witness:
  "tiles (gameDataRef stranded) = [startTile]
   \<and> tiles (gameDataRef (updatePhysics screen0 rand0 stranded)) = []
   \<and> tileIdCounter (updatePhysics screen0 rand0 stranded) = 1
   \<and> tiles (gameDataRef (updatePhysics screen0 rand0 (updatePhysics screen0 rand0 stranded))) = []
   \<and> tiles (gameDataRef (run screen0 [Tap rnd0 7] (updatePhysics screen0 rand0 stranded))) = []"
proof -
  have a: "snowballY (physics screen0 stranded) \<le> SCREEN_HEIGHT screen0 + 100"
    unfolding stranded_physics by (simp add: screen0_def initialState_def)
  have b: "activeTiles screen0 (physics screen0 stranded) (tiles (gameDataRef stranded)) = []"
    unfolding stranded_physics
    by (simp add: activeTiles_def stranded_def example_defs)
  have c: "gameState (updatePhysics screen0 rand0 stranded) = playing"
    unfolding updatePhysics_gameState stranded_physics
    by (simp add: stranded_def example_defs)
  have e: "sameRun screen0 [Tap rnd0 7] (updatePhysics screen0 rand0 stranded)"
    using c by simp
  have f: "nothingCreated stranded (run screen0 [Tap rnd0 7] (updatePhysics screen0 rand0 stranded))"
    using empty_tiles_absorbing [OF a b, of rand0] e by blast
  have g: "nothingCreated stranded (updatePhysics screen0 rand0 stranded)"
    using empty_tiles_absorbing [OF a b, of rand0] by blast
  have h: "nothingCreated stranded (updatePhysics screen0 rand0 (updatePhysics screen0 rand0 stranded))"
    using empty_tiles_absorbing [OF a b, of rand0] by blast
  have i: "tiles (gameDataRef stranded) = [startTile] \<and> tileIdCounter stranded = 1"
    by (simp add: stranded_def game0_def)
  show ?thesis
    using f g h i unfolding nothingCreated_def by simp
qed

section \<open>C4: the spacing of the tiles\<close>

lemma pick_in:
  assumes "randomValue r" and "xs \<noteq> []"
  shows "pick xs r \<in> set xs"
proof -
  have n: "0 < real (length xs)"
    using assms(2) by simp
  have "0 \<le> r * real (length xs)"
    using assms(1) by (simp add: randomValue_def)
  then have lo: "0 \<le> \<lfloor>r * real (length xs)\<rfloor>"
    by simp
  have "r * real (length xs) < real (length xs)"
    using assms(1) n by (simp add: randomValue_def)
  then have "\<lfloor>r * real (length xs)\<rfloor> < int (length xs)"
    by (simp add: floor_less_iff)
  then have "nat \<lfloor>r * real (length xs)\<rfloor> < length xs"
    using lo by linarith
  then show ?thesis
    by (simp add: pick_def)
qed

lemma placedAfter_new:
  assumes "randomValue rw" and "randomValue rg"
  shows "placedAfter a
     \<lparr> tile_id = n,
       tile_x = tile_x a + (tile_width a / 2) + pick GAP_SIZES rg + (pick TILE_WIDTHS rw / 2),
       tile_width = pick TILE_WIDTHS rw, tile_type = ty \<rparr>"
proof -
  have "pick GAP_SIZES rg \<in> set GAP_SIZES"
    using assms(2) by (rule pick_in) (simp add: GAP_SIZES_def)
  moreover have "pick TILE_WIDTHS rw \<in> set TILE_WIDTHS"
    using assms(1) by (rule pick_in) (simp add: TILE_WIDTHS_def)
  ultimately show ?thesis
    unfolding placedAfter_def tileRight_def by auto
qed

lemma placedAfter_gap:
  assumes "placedAfter a b"
  shows "tileLeft b - tileRight a \<in> set GAP_SIZES"
    and "tileRight a < tileLeft b"
    and "tile_width b \<in> set TILE_WIDTHS"
    and "tileRight a < tileRight b"
  using assms
  unfolding placedAfter_def tileLeft_def tileRight_def GAP_SIZES_def TILE_WIDTHS_def
  by auto

lemma successively_snoc:
  assumes "successively P xs" and "xs \<noteq> [] \<Longrightarrow> P (last xs) x"
  shows "successively P (xs @ [x])"
  using assms by (auto simp: successively_append_iff)

lemma successively_drop: "successively P xs \<Longrightarrow> successively P (drop k xs)"
proof (induction xs arbitrary: k)
  case Nil
  then show ?case by simp
next
  case (Cons x xs)
  show ?case
  proof (cases k)
    case 0
    then show ?thesis using Cons.prems by simp
  next
    case (Suc j)
    have "successively P xs"
      using Cons.prems by (cases xs) simp_all
    then show ?thesis
      using Suc Cons.IH by simp
  qed
qed

lemma right_of_all:
  "successively placedAfter (a # ts) \<Longrightarrow> \<forall>t\<in>set ts. tileRight a < tileRight t"
proof (induction ts arbitrary: a)
  case Nil
  then show ?case by simp
next
  case (Cons b ts)
  have ab: "tileRight a < tileRight b"
    using Cons.prems placedAfter_gap(4) by simp
  have "\<forall>t\<in>set ts. tileRight b < tileRight t"
    using Cons.prems Cons.IH by simp
  then show ?case
    using ab by auto
qed

lemma activeTiles_drop:
  "successively placedAfter ts \<Longrightarrow> \<exists>k. activeTiles d s ts = drop k ts"
proof (induction ts)
  case Nil
  then show ?case by (simp add: activeTiles_def)
next
  case (Cons a ts)
  show ?case
  proof (cases "tileRight a > cameraX s - SCREEN_WIDTH d")
    case True
    then have "\<forall>t\<in>set ts. tileRight t > cameraX s - SCREEN_WIDTH d"
      using right_of_all [OF Cons.prems] by fastforce
    then have "activeTiles d s (a # ts) = drop 0 (a # ts)"
      using True by (simp add: activeTiles_def tileRight_def)
    then show ?thesis by blast
  next
    case False
    have "successively placedAfter ts"
      using Cons.prems by (cases ts) simp_all
    then obtain k where "activeTiles d s ts = drop k ts"
      using Cons.IH by blast
    then have "activeTiles d s (a # ts) = drop (Suc k) (a # ts)"
      using False by (simp add: activeTiles_def tileRight_def)
    then show ?thesis by blast
  qed
qed

lemma activeTiles_wellSpaced:
  "wellSpaced ts \<Longrightarrow> wellSpaced (activeTiles d s ts)"
  unfolding wellSpaced_def using activeTiles_drop [of ts d s] successively_drop [of placedAfter ts]
  by auto

lemma spawn_tiles:
  "fst (spawn d r s act g) =
     (if act \<noteq> [] \<and> tile_x (last act) + tile_width (last act) / 2 < cameraX s + SPAWN_AHEAD_DISTANCE d
      then act @ [\<lparr> tile_id = tileIdCounter g,
                    tile_x = tile_x (last act) + (tile_width (last act) / 2) + pick GAP_SIZES (rGap r)
                               + (pick TILE_WIDTHS (rWidth r) / 2),
                    tile_width = pick TILE_WIDTHS (rWidth r), tile_type = medium \<rparr>]
      else act)"
  by (simp add: spawn_def Let_def)

lemma spawn_wellSpaced:
  assumes "wellSpaced act" and "validRand r"
  shows "wellSpaced (fst (spawn d r s act g))"
proof -
  have "placedAfter (last act)
      \<lparr> tile_id = tileIdCounter g,
        tile_x = tile_x (last act) + (tile_width (last act) / 2) + pick GAP_SIZES (rGap r)
                   + (pick TILE_WIDTHS (rWidth r) / 2),
        tile_width = pick TILE_WIDTHS (rWidth r), tile_type = medium \<rparr>"
    using assms(2) by (simp add: validRand_def placedAfter_new)
  then show ?thesis
    using assms(1) unfolding spawn_tiles wellSpaced_def
    by (simp add: successively_snoc)
qed

lemma updatePhysics_tiles:
  "tiles (gameDataRef (updatePhysics d r g)) =
     (if snowballY (physics d g) > SCREEN_HEIGHT d + 100 then tiles (gameDataRef g)
      else fst (spawn d r (physics d g) (activeTiles d (physics d g) (tiles (gameDataRef g)))
                  (g \<lparr> stateRef := physics d g \<rparr>)))"
  by (simp add: updatePhysics_def Let_def handleGameOver_def split: prod.splits)

lemma updatePhysics_wellSpaced:
  assumes "wellSpaced (tiles (gameDataRef g))" and "validRand r"
  shows "wellSpaced (tiles (gameDataRef (updatePhysics d r g)))"
  using assms
  by (simp add: updatePhysics_tiles spawn_wellSpaced activeTiles_wellSpaced)

lemma initLoop_wellSpaced:
  assumes "validInit rnd" and "ts \<noteq> []" and "tile_x (last ts) = c" and "tile_width (last ts) = w"
    and "successively placedAfter ts"
  shows "successively placedAfter (fst (initLoop rnd i idc c w ts))"
  using assms
proof (induction rnd i idc c w ts rule: initLoop.induct)
  case (1 rnd i idc c w ts)
  show ?case
  proof (cases "i < 5")
    case True
    let ?width = "pick TILE_WIDTHS (fst (rnd i))"
    let ?gap = "pick GAP_SIZES (snd (rnd i))"
    let ?x = "c + (w / 2) + ?gap + (?width / 2)"
    let ?new = "\<lparr> tile_id = idc, tile_x = ?x, tile_width = ?width, tile_type = medium \<rparr>"
    have r: "randomValue (fst (rnd i))" "randomValue (snd (rnd i))"
      using "1.prems"(1) True by (simp_all add: validInit_def)
    have "placedAfter (last ts) ?new"
      using placedAfter_new [OF r, of "last ts" idc medium] "1.prems"(3,4) by simp
    then have s: "successively placedAfter (ts @ [?new])"
      using "1.prems"(5) by (simp add: successively_snoc)
    have "successively placedAfter (fst (initLoop rnd (Suc i) (Suc idc) ?x ?width (ts @ [?new])))"
      using "1.IH" [OF True refl refl refl "1.prems"(1)] s by simp
    then show ?thesis
      using True by (subst initLoop.simps) (simp add: Let_def)
  next
    case False
    then show ?thesis
      using "1.prems"(5) by (subst initLoop.simps) simp
  qed
qed

lemma handleStart_tiles:
  "tiles (gameDataRef (handleStart d rnd g)) =
     fst (initLoop rnd 0 1 0 600 [\<lparr> tile_id = 0, tile_x = 0, tile_width = 600, tile_type = long \<rparr>])"
  by (simp add: handleStart_def initGame_def Let_def split: prod.splits)

lemma handleStart_wellSpaced:
  assumes "validInit rnd"
  shows "wellSpaced (tiles (gameDataRef (handleStart d rnd g)))"
  unfolding handleStart_tiles wellSpaced_def
  using assms by (rule initLoop_wellSpaced) simp_all

lemma wellSpaced_in_run:
  assumes "validInit rnd" and "list_all validEvent es"
  shows "wellSpaced (tiles (gameDataRef (run d es (handleStart d rnd g0))))"
proof (rule run_invariant
    [where I = "\<lambda>h. wellSpaced (tiles (gameDataRef h))" and VE = validEvent
       and VI = validInit and VR = validRand])
  show "wellSpaced (tiles (gameDataRef (handleStart d rnd g0)))"
    using assms(1) by (rule handleStart_wellSpaced)
  show "list_all validEvent es"
    by (rule assms(2))
  show "validInit rnd" if "validEvent (Tap rnd now)" for rnd now
    using that by simp
  show "validRand (rs k)" if "validEvent (Frame rs time)" for rs time k
    using that by simp
  show "wellSpaced (tiles (gameDataRef (handleStart d rnd g)))" if "validInit rnd" for g rnd
    using that by (rule handleStart_wellSpaced)
  show "wellSpaced (tiles (gameDataRef (updatePhysics d r g)))"
    if "validRand r" "wellSpaced (tiles (gameDataRef g))" for g r
    using that(2,1) by (rule updatePhysics_wellSpaced)
  show "wellSpaced (tiles (gameDataRef (handleTap d rnd now g)))"
    if "wellSpaced (tiles (gameDataRef g))" "gameState g = playing" for g rnd now
    using that by (simp add: handleTap_def Let_def)
qed simp

lemma initLoop_shape:
  "\<exists>rest. fst (initLoop rnd i idc c w ts) = ts @ rest \<and> length rest = 5 - i"
proof (induction rnd i idc c w ts rule: initLoop.induct)
  case (1 rnd i idc c w ts)
  show ?case
  proof (cases "i < 5")
    case True
    let ?width = "pick TILE_WIDTHS (fst (rnd i))"
    let ?gap = "pick GAP_SIZES (snd (rnd i))"
    let ?x = "c + (w / 2) + ?gap + (?width / 2)"
    let ?new = "\<lparr> tile_id = idc, tile_x = ?x, tile_width = ?width, tile_type = medium \<rparr>"
    obtain rest where rest:
      "fst (initLoop rnd (Suc i) (Suc idc) ?x ?width (ts @ [?new])) = (ts @ [?new]) @ rest"
      "length rest = 5 - Suc i"
      using "1.IH" [OF True refl refl refl] by blast
    have "fst (initLoop rnd i idc c w ts) = ts @ (?new # rest)"
      using True rest(1) by (subst initLoop.simps) (simp add: Let_def)
    moreover have "length (?new # rest) = 5 - i"
      using True rest(2) by simp
    ultimately show ?thesis
      by blast
  next
    case False
    then show ?thesis
      by (subst initLoop.simps) simp
  qed
qed

lemma handleStart_shape:
  "length (tiles (gameDataRef (handleStart d rnd g))) = 6
   \<and> tiles (gameDataRef (handleStart d rnd g)) ! 0
       = \<lparr> tile_id = 0, tile_x = 0, tile_width = 600, tile_type = long \<rparr>"
proof -
  obtain rest where
    "fst (initLoop rnd 0 1 0 600 [\<lparr> tile_id = 0, tile_x = 0, tile_width = 600, tile_type = long \<rparr>])
       = [\<lparr> tile_id = 0, tile_x = 0, tile_width = 600, tile_type = long \<rparr>] @ rest"
    "length rest = 5 - 0"
    using initLoop_shape by blast
  then show ?thesis
    by (simp add: handleStart_tiles)
qed

text \<open>
  C4. Let the random values be values of \<^verbatim>\<open>Math.random()\<close>, and let \<open>ts\<close> be the tile list
  after a start and any sequence of taps and frames. Then every tile of \<open>ts\<close> but the first
  has a width from \<open>{120, 180, 250, 400}\<close> and its centre at the right edge of its
  predecessor plus a gap from \<open>{100, 150, 200}\<close> plus half its width; so the distance from
  the predecessor's right edge to its left edge is one of the gaps, and the two do not
  overlap. The start lays out six tiles, the first 600 wide at the origin, and every
  further step keeps the spacing.
\<close>

theorem tile_spacing:
  assumes "validInit rnd"
    and "list_all validEvent es"
    and "g = run d es (handleStart d rnd g0)"
    and "ts = tiles (gameDataRef g)"
  shows "wellSpaced ts
    \<and> (\<forall>i. Suc i < length ts \<longrightarrow>
          (\<exists>gap\<in>set GAP_SIZES. \<exists>width\<in>set TILE_WIDTHS.
              tile_width (ts ! Suc i) = width
              \<and> tile_x (ts ! Suc i) = tileRight (ts ! i) + gap + width / 2)
          \<and> tileLeft (ts ! Suc i) - tileRight (ts ! i) \<in> set GAP_SIZES
          \<and> tileRight (ts ! i) < tileLeft (ts ! Suc i))
    \<and> GAP_SIZES = [100, 150, 200]
    \<and> TILE_WIDTHS = [120, 180, 250, 400]
    \<and> length (tiles (gameDataRef (handleStart d rnd g0))) = 6
    \<and> tiles (gameDataRef (handleStart d rnd g0)) ! 0
        = \<lparr> tile_id = 0, tile_x = 0, tile_width = 600, tile_type = long \<rparr>
    \<and> (\<forall>r. validRand r \<longrightarrow> wellSpaced (tiles (gameDataRef (updatePhysics d r g))))"
proof -
  have ws: "wellSpaced ts"
    unfolding assms(3,4) using assms(1,2) by (rule wellSpaced_in_run)
  have pairs: "placedAfter (ts ! i) (ts ! Suc i)" if "Suc i < length ts" for i
    using ws that unfolding wellSpaced_def by (rule successively_nth)
  have each: "(\<exists>gap\<in>set GAP_SIZES. \<exists>width\<in>set TILE_WIDTHS.
              tile_width (ts ! Suc i) = width
              \<and> tile_x (ts ! Suc i) = tileRight (ts ! i) + gap + width / 2)
          \<and> tileLeft (ts ! Suc i) - tileRight (ts ! i) \<in> set GAP_SIZES
          \<and> tileRight (ts ! i) < tileLeft (ts ! Suc i)" if "Suc i < length ts" for i
    using pairs [OF that] placedAfter_gap(1,2) [OF pairs [OF that]]
    unfolding placedAfter_def by blast
  have step: "wellSpaced (tiles (gameDataRef (updatePhysics d r g)))" if "validRand r" for r
    using ws that unfolding assms(4) by (rule updatePhysics_wellSpaced)
  have sizes: "GAP_SIZES = [100, 150, 200]" "TILE_WIDTHS = [120, 180, 250, 400]"
    by (simp_all add: GAP_SIZES_def TILE_WIDTHS_def)
  from ws each sizes handleStart_shape [of d rnd g0] step show ?thesis
    by blast
qed

lemma start_tiles:
  "map tile_x (tiles (gameDataRef (handleStart screen0 rnd0 game0)))
     = [0, 575, 975, 1375, 1775, 2175]
   \<and> map tile_width (tiles (gameDataRef (handleStart screen0 rnd0 game0)))
     = [600, 250, 250, 250, 250, 250]"
  unfolding handleStart_tiles
  by (simp add: initLoop.simps Let_def pick_def rnd0_def TILE_WIDTHS_def GAP_SIZES_def)

text \<open>The theorem at a start and one frame, with the tiles the start lays out.\<close>

theorem tile_spacing_witness:
  "wellSpaced (tiles (gameDataRef (run screen0 [Frame rands0 16] (handleStart screen0 rnd0 game0))))
   \<and> wellSpaced (tiles (gameDataRef (handleStart screen0 rnd0 game0)))
   \<and> map tile_x (tiles (gameDataRef (handleStart screen0 rnd0 game0)))
       = [0, 575, 975, 1375, 1775, 2175]
   \<and> map tile_width (tiles (gameDataRef (handleStart screen0 rnd0 game0)))
       = [600, 250, 250, 250, 250, 250]"
proof -
  have a: "validInit rnd0"
    by (simp add: validInit_def rnd0_def randomValue_def)
  have b: "list_all validEvent [Frame rands0 16]"
    by (simp add: rands0_def rand0_def validRand_def randomValue_def)
  have c: "list_all validEvent []"
    by simp
  show ?thesis
    using tile_spacing [OF a b refl refl, of screen0 game0]
      tile_spacing [OF a c refl refl, of screen0 game0] start_tiles
    by simp
qed

section \<open>C7: resting on a tile\<close>

lemma preCollision_resting:
  assumes "resting d (stateRef g)"
  shows "landingCondition d (preCollision g)"
    and "jumpBufferTimer (preCollision g) \<le> 0"
  using assms
  by (simp_all add: resting_def preCollision_def decayTimers_def advance_def integrate_def Let_def
      landingCondition_def constant_defs)

lemma touchDown_resting:
  "jumpBufferTimer s \<le> 0 \<Longrightarrow> resting d (land d s)"
  by (simp add: land_def touchDown_def Let_def resting_def)

lemma resting_step:
  assumes "resting d (stateRef g)"
    and "\<exists>t\<in>set (tiles (gameDataRef g)). horizontalOverlap (preCollision g) t"
  shows "resting d (stateRef (updatePhysics d r g))"
    and "gameState (updatePhysics d r g) = gameState g"
proof -
  have p: "physics d g = land d (preCollision g)"
    using assms(2) preCollision_resting(1) [OF assms(1)] by (simp add: physics_eq Let_def)
  have r: "resting d (physics d g)"
    unfolding p using preCollision_resting(2) [OF assms(1)] by (rule touchDown_resting)
  have "actorState (stateRef (updatePhysics d r g)) = actorState (physics d g)"
    by (rule updatePhysics_actorState)
  then show "resting d (stateRef (updatePhysics d r g))"
    using r by (simp add: actorState_def resting_def)
  have "snowballY (physics d g) \<le> SCREEN_HEIGHT d + 100"
    using r by (simp add: resting_def constant_defs)
  then show "gameState (updatePhysics d r g) = gameState g"
    by (simp add: updatePhysics_gameState)
qed

lemma resting_steps:
  assumes "resting d (stateRef g)" and "supported d rs g"
  shows "resting d (stateRef (steps d rs g)) \<and> gameState (steps d rs g) = gameState g"
  using assms
proof (induction rs arbitrary: g)
  case Nil
  then show ?case by simp
next
  case (Cons r rs)
  have over: "\<exists>t\<in>set (tiles (gameDataRef g)). horizontalOverlap (preCollision g) t"
    using Cons.prems(2) by simp
  have "resting d (stateRef (updatePhysics d r g))"
    using Cons.prems(1) over by (rule resting_step(1))
  moreover have "supported d rs (updatePhysics d r g)"
    using Cons.prems(2) by simp
  ultimately have "resting d (stateRef (steps d rs (updatePhysics d r g)))
      \<and> gameState (steps d rs (updatePhysics d r g)) = gameState (updatePhysics d r g)"
    by (rule Cons.IH)
  then show ?case
    using resting_step(2) [OF Cons.prems(1) over, of r] by simp
qed

lemma supported_take:
  "supported d rs g \<Longrightarrow> supported d (take n rs) g"
proof (induction rs arbitrary: g n)
  case Nil
  then show ?case by simp
next
  case (Cons r rs)
  then show ?case by (cases n) simp_all
qed

text \<open>
  C7, as the code has it. A snowball that rests on the surface stays resting through
  every physics step in which it still overlaps a tile: each step lets it sink by the
  gravity and lands it again, grounded, at the surface, with velocity 0, and the game
  goes on. This holds after every number of such steps, until a tap: a tap during play
  makes it jump.
\<close>

theorem resting_stays_grounded:
  assumes "resting d (stateRef g)"
    and "supported d rs g"
  shows "resting d (stateRef (steps d rs g))
    \<and> isOnGround (stateRef (steps d rs g))
    \<and> velocity (stateRef (steps d rs g)) = 0
    \<and> snowballY (stateRef (steps d rs g)) = TILE_Y d - SNOWBALL_SIZE
    \<and> gameState (steps d rs g) = gameState g
    \<and> (\<forall>n. resting d (stateRef (steps d (take n rs) g)))
    \<and> (gameState (steps d rs g) = playing \<longrightarrow>
          \<not> isOnGround (stateRef (handleTap d rnd now (steps d rs g)))
          \<and> velocity (stateRef (handleTap d rnd now (steps d rs g))) = JUMP_FORCE)"
proof -
  have a: "resting d (stateRef (steps d rs g)) \<and> gameState (steps d rs g) = gameState g"
    using assms by (rule resting_steps)
  have b: "resting d (stateRef (steps d (take n rs) g))" for n
    using resting_steps [OF assms(1) supported_take [OF assms(2)]] by blast
  have c: "gameState (steps d rs g) = playing \<longrightarrow>
          \<not> isOnGround (stateRef (handleTap d rnd now (steps d rs g)))
          \<and> velocity (stateRef (handleTap d rnd now (steps d rs g))) = JUMP_FORCE"
    using a by (simp add: handleTap_def Let_def resting_def)
  have e: "isOnGround (stateRef (steps d rs g))
    \<and> velocity (stateRef (steps d rs g)) = 0
    \<and> snowballY (stateRef (steps d rs g)) = TILE_Y d - SNOWBALL_SIZE"
    using a by (simp add: resting_def)
  from a b c e show ?thesis
    by blast
qed

text \<open>The resting snowball of \<open>game0\<close> after one step.\<close>

lemma game0_step:
  "updatePhysics screen0 rand0 game0 =
     game0 \<lparr> stateRef := (initialState screen0)
               \<lparr> cameraX := 2188 / 625, speed := 2188 / 625, score := 547 / 15625,
                 coyoteTimer := 8 \<rparr>,
             gameDataRef := \<lparr> tiles = [startTile,
                 \<lparr> tile_id = 1, tile_x = 575, tile_width = 250, tile_type = medium \<rparr>],
               collectibles = [\<lparr> col_id = 0, col_x = 575, col_tileId = 1, collected = False \<rparr>] \<rparr>,
             tileIdCounter := 2, collectibleIdCounter := 1 \<rparr>"
  by (simp add: example_defs step_defs constant_defs Let_def collectLoop_eq)

text \<open>The theorem at the resting snowball of \<open>game0\<close>, for two steps.\<close>

theorem resting_stays_grounded_witness:
  "isOnGround (stateRef (steps screen0 [rand0, rand0] game0))
   \<and> velocity (stateRef (steps screen0 [rand0, rand0] game0)) = 0
   \<and> snowballY (stateRef (steps screen0 [rand0, rand0] game0)) = 560"
proof -
  have a: "resting screen0 (stateRef game0)"
    by (simp add: resting_def example_defs constant_defs)
  have b: "supported screen0 [rand0, rand0] game0"
    by (simp add: game0_step)
      (simp add: example_defs preCollision_def integrate_def advance_def decayTimers_def
        horizontalOverlap_def constant_defs Let_def)
  show ?thesis
    using resting_stays_grounded [OF a b] by (simp add: constant_defs screen0_def)
qed

text \<open>
  C7 as stated fails: no jump command is issued, and the next step takes the snowball
  past the end of the platform; it is no longer grounded, and falls.
\<close>

theorem rolling_off_the_edge:
  "isOnGround (stateRef edgeGame)
   \<and> velocity (stateRef edgeGame) = 0
   \<and> snowballY (stateRef edgeGame) = TILE_Y screen0 - SNOWBALL_SIZE
   \<and> jumpBufferTimer (stateRef edgeGame) = 0
   \<and> tiles (gameDataRef edgeGame) = [startTile]
   \<and> horizontalOverlap (stateRef edgeGame) startTile
   \<and> \<not> isOnGround (stateRef (updatePhysics screen0 rand0 edgeGame))
   \<and> snowballY (stateRef (updatePhysics screen0 rand0 edgeGame)) \<noteq> TILE_Y screen0 - SNOWBALL_SIZE
   \<and> velocity (stateRef (updatePhysics screen0 rand0 edgeGame)) \<noteq> 0"
proof -
  have "actorState (physics screen0 edgeGame) = (2803 / 5, 3 / 5, False, False, 8, 0, 560)"
    by (simp add: edgeGame_def example_defs step_defs constant_defs Let_def)
  then have "actorState (stateRef (updatePhysics screen0 rand0 edgeGame))
      = (2803 / 5, 3 / 5, False, False, 8, 0, 560)"
    by (simp add: updatePhysics_actorState)
  moreover have "isOnGround (stateRef edgeGame)
   \<and> velocity (stateRef edgeGame) = 0
   \<and> snowballY (stateRef edgeGame) = TILE_Y screen0 - SNOWBALL_SIZE
   \<and> jumpBufferTimer (stateRef edgeGame) = 0
   \<and> tiles (gameDataRef edgeGame) = [startTile]
   \<and> horizontalOverlap (stateRef edgeGame) startTile"
    by (simp add: edgeGame_def example_defs horizontalOverlap_def constant_defs Let_def)
  ultimately show ?thesis
    by (simp add: actorState_def constant_defs screen0_def)
qed

text \<open>
  In a run a grounded snowball never has a buffered jump waiting, so that the last
  condition of \<open>resting\<close> holds by itself.
\<close>

lemma preCollision_buffer:
  "jumpBufferTimer (preCollision g)
     = (if jumpBufferTimer (stateRef g) > 0 then jumpBufferTimer (stateRef g) - 1
        else jumpBufferTimer (stateRef g))"
  by (simp add: preCollision_def decayTimers_def advance_def integrate_def Let_def)

lemma grounded_no_buffer_step:
  assumes "isOnGround (stateRef g) \<longrightarrow> jumpBufferTimer (stateRef g) \<le> 0"
  shows "isOnGround (stateRef (updatePhysics d r g))
      \<longrightarrow> jumpBufferTimer (stateRef (updatePhysics d r g)) \<le> 0"
proof -
  have "isOnGround (physics d g) \<longrightarrow> jumpBufferTimer (physics d g) \<le> 0"
  proof (cases "isOnGround (stateRef g)")
    case True
    then have "jumpBufferTimer (stateRef g) \<le> 0"
      using assms by simp
    then show ?thesis
      by (simp add: physics_eq Let_def land_def touchDown_def preCollision_flags preCollision_buffer)
  next
    case False
    then show ?thesis
      by (simp add: physics_eq Let_def land_def touchDown_def preCollision_flags preCollision_buffer)
  qed
  then show ?thesis
    using updatePhysics_actorState [of d r g] by (simp add: actorState_def)
qed

lemma grounded_no_buffer_in_run:
  "isOnGround (stateRef (run d es (handleStart d rnd g0)))
     \<longrightarrow> jumpBufferTimer (stateRef (run d es (handleStart d rnd g0))) \<le> 0"
proof (rule run_invariant
    [where I = "\<lambda>h. isOnGround (stateRef h) \<longrightarrow> jumpBufferTimer (stateRef h) \<le> 0"
       and VE = "\<lambda>_. True" and VI = "\<lambda>_. True" and VR = "\<lambda>_. True"])
  show "isOnGround (stateRef (handleStart d rnd g0))
      \<longrightarrow> jumpBufferTimer (stateRef (handleStart d rnd g0)) \<le> 0"
    by (simp add: handleStart_state initialState_def)
  show "list_all (\<lambda>_. True) es"
    by (simp add: list_all_iff)
  show "isOnGround (stateRef (handleStart d rnd g))
      \<longrightarrow> jumpBufferTimer (stateRef (handleStart d rnd g)) \<le> 0" for g rnd
    by (simp add: handleStart_state initialState_def)
  show "isOnGround (stateRef (updatePhysics d r g))
      \<longrightarrow> jumpBufferTimer (stateRef (updatePhysics d r g)) \<le> 0"
    if "isOnGround (stateRef g) \<longrightarrow> jumpBufferTimer (stateRef g) \<le> 0" for g r
    using that by (rule grounded_no_buffer_step)
  show "isOnGround (stateRef (handleTap d rnd now g))
      \<longrightarrow> jumpBufferTimer (stateRef (handleTap d rnd now g)) \<le> 0"
    if "isOnGround (stateRef g) \<longrightarrow> jumpBufferTimer (stateRef g) \<le> 0" "gameState g = playing"
    for g rnd now
    using that by (simp add: handleTap_def Let_def)
qed simp_all

section \<open>C5: the end of the run\<close>

text \<open>
  Once the snowball is below the death line and not moving up, every further step ends
  at the death test again: it calls \<^verbatim>\<open>handleGameOver\<close>, leaves tiles and collectibles alone,
  and has added the speed over 100 to the score before.
\<close>

lemma step_after_death:
  assumes "snowballY (stateRef g) > SCREEN_HEIGHT d + 100"
    and "0 \<le> velocity (stateRef g)"
  shows "updatePhysics d r g = g \<lparr> stateRef := physics d g, gameState := gameOver \<rparr>"
    and "snowballY (physics d g) > SCREEN_HEIGHT d + 100"
    and "0 \<le> velocity (physics d g)"
    and "score (physics d g)
       = score (stateRef g) + min (speed (stateRef g) + SPEED_INCREMENT) MAX_SPEED / 100"
proof -
  have pre: "snowballY (preCollision g) > SCREEN_HEIGHT d + 100 \<and> 0 \<le> velocity (preCollision g)"
    using assms
    by (simp add: preCollision_def decayTimers_def advance_def integrate_def Let_def constant_defs)
  then have nl: "\<not> landingCondition d (preCollision g)"
    by (simp add: landingCondition_def Let_def constant_defs)
  have y: "snowballY (physics d g) = snowballY (preCollision g)
      \<and> velocity (physics d g) = velocity (preCollision g)"
    by (simp add: physics_eq nl Let_def)
  show dead: "snowballY (physics d g) > SCREEN_HEIGHT d + 100"
    using pre y by simp
  show "0 \<le> velocity (physics d g)"
    using pre y by simp
  show "updatePhysics d r g = g \<lparr> stateRef := physics d g, gameState := gameOver \<rparr>"
    using dead by (rule updatePhysics_dead)
  show "score (physics d g)
       = score (stateRef g) + min (speed (stateRef g) + SPEED_INCREMENT) MAX_SPEED / 100"
    by (simp add: physics_speed preCollision_speed)
qed

lemma dyingGame_step:
  "updatePhysics screen0 rand0 dyingGame =
     dyingGame \<lparr> stateRef := (stateRef dyingGame)
                   \<lparr> snowballY := 915, cameraX := 627188 / 625, speed := 2188 / 625,
                     score := 547 / 15625 \<rparr>,
                 gameState := gameOver \<rparr>"
  by (simp add: dyingGame_def example_defs step_defs constant_defs Let_def)

lemma dyingGame_catchUp:
  "catchUp screen0 rands0 0
     (dyingGame \<lparr> stateRef := (stateRef dyingGame) \<lparr> lastTime := 1040, accumulator := 40 \<rparr> \<rparr>) =
     dyingGame \<lparr> stateRef := (stateRef dyingGame)
                   \<lparr> snowballY := 935, cameraX := 1258753 / 1250, speed := 4377 / 1250,
                     score := 8753 / 125000, lastTime := 1040, accumulator := 20 / 3 \<rparr>,
                 gameState := gameOver \<rparr>"
proof -
  let ?G0 = "dyingGame \<lparr> stateRef := (stateRef dyingGame) \<lparr> lastTime := 1040, accumulator := 40 \<rparr> \<rparr>"
  let ?G1 = "dyingGame \<lparr> stateRef := (stateRef dyingGame)
                   \<lparr> snowballY := 915, cameraX := 627188 / 625, speed := 2188 / 625,
                     score := 547 / 15625, lastTime := 1040, accumulator := 70 / 3 \<rparr>,
                 gameState := gameOver \<rparr>"
  let ?G2 = "dyingGame \<lparr> stateRef := (stateRef dyingGame)
                   \<lparr> snowballY := 935, cameraX := 1258753 / 1250, speed := 4377 / 1250,
                     score := 8753 / 125000, lastTime := 1040, accumulator := 20 / 3 \<rparr>,
                 gameState := gameOver \<rparr>"
  have s0: "updatePhysics screen0 rand0 ?G0 =
      ?G0 \<lparr> stateRef := (stateRef ?G0)
                \<lparr> snowballY := 915, cameraX := 627188 / 625, speed := 2188 / 625,
                  score := 547 / 15625 \<rparr>,
             gameState := gameOver \<rparr>"
    by (simp add: dyingGame_def example_defs step_defs constant_defs Let_def)
  have s1: "updatePhysics screen0 rand0 ?G1 =
      ?G1 \<lparr> stateRef := (stateRef ?G1)
                \<lparr> snowballY := 935, cameraX := 1258753 / 1250, speed := 4377 / 1250,
                  score := 8753 / 125000 \<rparr> \<rparr>"
    by (simp add: dyingGame_def example_defs step_defs constant_defs Let_def)
  have c2: "catchUp screen0 rands0 (Suc (Suc 0)) ?G2 = ?G2"
    by (subst catchUp.simps) (simp add: dyingGame_def example_defs constant_defs)
  have c1: "catchUp screen0 rands0 (Suc 0) ?G1 = catchUp screen0 rands0 (Suc (Suc 0)) ?G2"
    by (subst catchUp.simps) (simp add: rands0_def s1 Let_def, simp add: dyingGame_def example_defs constant_defs)
  have c0: "catchUp screen0 rands0 0 ?G0 = catchUp screen0 rands0 (Suc 0) ?G1"
    by (subst catchUp.simps) (simp add: rands0_def s0 Let_def, simp add: dyingGame_def example_defs constant_defs)
  show ?thesis
    using c0 c1 c2 by simp
qed

lemma dyingGame_frame:
  "gameLoop screen0 rands0 1040 dyingGame =
     dyingGame \<lparr> stateRef := (stateRef dyingGame)
                   \<lparr> snowballY := 935, cameraX := 1258753 / 1250, speed := 4377 / 1250,
                     score := 8753 / 125000, lastTime := 1040, accumulator := 20 / 3,
                     frameCounter := 1 \<rparr>,
                 gameState := gameOver \<rparr>"
proof -
  have "dyingGame \<lparr> stateRef := (stateRef dyingGame)
          \<lparr> lastTime := 1040,
            accumulator := accumulator (stateRef dyingGame)
              + (1040 - (if lastTime (stateRef dyingGame) = 0 then 1040
                         else lastTime (stateRef dyingGame))) \<rparr> \<rparr>
      = dyingGame \<lparr> stateRef := (stateRef dyingGame) \<lparr> lastTime := 1040, accumulator := 40 \<rparr> \<rparr>"
    by (simp add: dyingGame_def example_defs)
  then show ?thesis
    unfolding gameLoop_eq Let_def
    by (simp add: dyingGame_catchUp) (simp add: dyingGame_def example_defs)
qed

text \<open>
  C5 at \<open>dyingGame\<close> and a frame at time 1040, forty milliseconds after the last one: two
  fixed steps are due. The first step takes the snowball below the death line and ends
  the run. The loop of \<^verbatim>\<open>gameLoop\<close> does not look at the game state and runs the second step:
  the score grows again after the run has ended. The tiles are left as they were.
\<close>

theorem score_after_death:
  "gameState dyingGame = playing
   \<and> snowballY (stateRef dyingGame) \<le> SCREEN_HEIGHT screen0 + 100
   \<and> gameState (updatePhysics screen0 rand0 dyingGame) = gameOver
   \<and> snowballY (stateRef (updatePhysics screen0 rand0 dyingGame)) > SCREEN_HEIGHT screen0 + 100
   \<and> score (stateRef (updatePhysics screen0 rand0 dyingGame)) = 547 / 15625
   \<and> score (stateRef (gameLoop screen0 rands0 1040 dyingGame)) = 8753 / 125000
   \<and> score (stateRef (updatePhysics screen0 rand0 dyingGame))
       < score (stateRef (gameLoop screen0 rands0 1040 dyingGame))
   \<and> tiles (gameDataRef (gameLoop screen0 rands0 1040 dyingGame)) = tiles (gameDataRef dyingGame)"
  unfolding dyingGame_step dyingGame_frame
  by (simp add: dyingGame_def example_defs)

end
